theory Spec2Isabelle
  imports Main
begin

section \<open>Data model\<close>

text \<open>
  The program is \<^verbatim>\<open>ml_app/app/ingest/import_merge.py\<close>: three functions over pandas
  data frames, \<^verbatim>\<open>import_gcs_data\<close>, \<^verbatim>\<open>merge_data\<close> and \<^verbatim>\<open>export_data_gcs\<close>.

  A cell of a data frame is a missing value, a number, a text or a timestamp. The type of
  timestamps is left open (\<open>'d\<close>). A data frame is its list of column labels and its list
  of rows; row labels (the index) are not modelled: \<^verbatim>\<open>merge\<close> discards them and both
  writes of the exporter pass \<^verbatim>\<open>index=False\<close>. A frame does not carry the dtypes of
  its columns; the sort of a column is read from its cells.
\<close>

datatype 'd cell = NaN | Num int | Str string | Date 'd

record 'd table =
  columns :: "string list"
  rows :: "'d cell list list"

text \<open>A frame of pandas is rectangular: every row has one cell per column.\<close>

definition rectangular :: "'d table \<Rightarrow> bool" where
  "rectangular t = list_all (\<lambda>r. length r = length (columns t)) (rows t)"

text \<open>
  The sort of a column, as far as \<^verbatim>\<open>merge\<close> looks at it: a column with a text is a text
  column (dtype \<^verbatim>\<open>object\<close>), else a column with a timestamp is a timestamp column, else
  it is numeric (a column of missing values only is \<^verbatim>\<open>float64\<close>).
\<close>

datatype kind = Numeric | Text | Time

fun is_text :: "'d cell \<Rightarrow> bool" where
  "is_text (Str s) = True"
| "is_text c = False"

fun is_time :: "'d cell \<Rightarrow> bool" where
  "is_time (Date d) = True"
| "is_time c = False"

fun is_number :: "'d cell \<Rightarrow> bool" where
  "is_number (Num n) = True"
| "is_number c = False"

definition col_kind :: "'d cell list \<Rightarrow> kind" where
  "col_kind cs = (if list_ex is_text cs then Text else if list_ex is_time cs then Time else Numeric)"

definition column :: "nat \<Rightarrow> 'd table \<Rightarrow> 'd cell list" where
  "column i t = map (\<lambda>r. r ! i) (rows t)"

text \<open>
  The frames the model speaks about are those that \<^verbatim>\<open>read_csv\<close> gives and that the three
  functions make of them: rectangular, every column of one sort (missing values apart), and
  every number a whole number of absolute value at most \<open>2\<^sup>5\<^sup>3\<close>, which \<^verbatim>\<open>int64\<close> and
  \<^verbatim>\<open>float64\<close> both hold exactly, so that the casts that pandas makes between the two
  change no value. On other frames the model and pandas may differ; the properties below
  that depend on what a merge compares or raises are stated for such frames.
\<close>

fun exact :: "'d cell \<Rightarrow> bool" where
  "exact (Num n) = (\<bar>n\<bar> \<le> 9007199254740992)"
| "exact c = True"

definition one_sort :: "'d cell list \<Rightarrow> bool" where
  "one_sort cs =
     ((list_ex is_number cs \<longrightarrow> \<not> list_ex is_text cs \<and> \<not> list_ex is_time cs)
      \<and> (list_ex is_text cs \<longrightarrow> \<not> list_ex is_time cs))"

definition well_formed :: "'d table \<Rightarrow> bool" where
  "well_formed t =
     (rectangular t
      \<and> list_all (\<lambda>i. one_sort (column i t)) [0..<length (columns t)]
      \<and> list_all (list_all exact) (rows t))"

text \<open>
  Python's exceptions, as far as the three functions can raise them. \<open>DanglingRef\<close> is the
  model's own: a reference to no object, which Python cannot build.
\<close>

datatype error =
    UnboundLocalError string
  | KeyError string
  | ValueError string
  | MergeError string
  | ParserError
  | FileNotFoundError string
  | OSError string
  | DanglingRef nat

subsection \<open>Objects\<close>

text \<open>
  Data frames are mutable objects. The object store is a list of frames, a reference is a
  position in it, and a new object is appended at the end.
\<close>

type_synonym ref = nat
type_synonym 'd heap = "'d table list"

definition deref :: "'d heap \<Rightarrow> ref \<Rightarrow> error + 'd table" where
  "deref h r = (if r < length h then Inr (h ! r) else Inl (DanglingRef r))"

definition alloc :: "'d heap \<Rightarrow> 'd table \<Rightarrow> ref \<times> 'd heap" where
  "alloc h t = (length h, h @ [t])"

text \<open>\<^verbatim>\<open>DataFrame.copy()\<close>: a new object with the same labels and cells.\<close>

definition df_copy :: "'d heap \<Rightarrow> ref \<Rightarrow> (error + ref) \<times> 'd heap" where
  "df_copy h r =
     (case deref h r of
        Inl e \<Rightarrow> (Inl e, h)
      | Inr t \<Rightarrow> (case alloc h t of (p, h') \<Rightarrow> (Inr p, h')))"

subsection \<open>The dicts\<close>

text \<open>
  The dict that describes a dataset to import, the dict that describes an export, and the
  dict that the importer returns and of which \<^verbatim>\<open>df_list\<close> is a list (keys
  \<^verbatim>\<open>df_name\<close> and \<^verbatim>\<open>df\<close>).
\<close>

record import_data =
  bucket_name :: string
  import_data_folder :: string
  filename :: string
  df_name :: string

record export_data =
  bucket_name :: string
  export_data_folder :: string
  local_export_folder :: string
  filename :: string

record named_df =
  df_name :: string
  df :: ref

subsection \<open>The library\<close>

text \<open>
  What pandas does inside a CSV parser, a CSV writer and a timestamp parser is not part of
  the program, and the repository pins no version of pandas. The library is a parameter
  of the model:
  \<^item> the text of a CSV object to a frame (\<^verbatim>\<open>pd.read_csv\<close>, \<open>None\<close> for a malformed
    text);
  \<^item> a frame to the text that \<^verbatim>\<open>DataFrame.to_csv\<close> writes (the flag is \<^verbatim>\<open>index\<close>);
  \<^item> \<^verbatim>\<open>pd.to_datetime\<close> on the values of a column: the converted values or the error
    raised. It is a function of the whole column: pandas 2 and later infer one format
    from the first value and parse every value with it, pandas 1 parses value by value;
  \<^item> two points where \<^verbatim>\<open>merge\<close> differs between versions: whether a suffix that makes
    a duplicate label raises (pandas 2 and later) or only warns, and whether for a left
    frame without rows the key column of the left frame is dropped instead of the right
    one (pandas 1).
\<close>

record 'd pandas =
  read_csv_text :: "string \<Rightarrow> 'd table option"
  to_csv_text :: "bool \<Rightarrow> 'd table \<Rightarrow> string"
  to_datetime :: "'d cell list \<Rightarrow> error + 'd cell list"
  suffix_collision_raises :: bool
  empty_left_drops_left_key :: bool

subsection \<open>Column labels\<close>

text \<open>
  The position of a label that selects one column. pandas raises \<^verbatim>\<open>KeyError\<close> for a
  label that is absent and \<^verbatim>\<open>ValueError\<close> where one column is needed and the label
  names several.
\<close>

definition label_pos :: "string \<Rightarrow> string list \<Rightarrow> error + nat" where
  "label_pos k cs =
     (case filter (\<lambda>i. cs ! i = k) [0..<length cs] of
        [] \<Rightarrow> Inl (KeyError k)
      | [i] \<Rightarrow> Inr i
      | _ \<Rightarrow> Inl (ValueError k))"

definition drop_nth :: "nat \<Rightarrow> 'a list \<Rightarrow> 'a list" where
  "drop_nth j xs = take j xs @ drop (Suc j) xs"

subsection \<open>\<^verbatim>\<open>DataFrame.drop_duplicates\<close>\<close>

text \<open>With the default \<^verbatim>\<open>keep='first'\<close>: a row stays unless an equal row came before it.\<close>

fun keep_first :: "'a list \<Rightarrow> 'a list \<Rightarrow> 'a list" where
  "keep_first seen [] = []"
| "keep_first seen (r # rs) =
     (if r \<in> set seen then keep_first seen rs else r # keep_first (r # seen) rs)"

definition drop_duplicates :: "'d table \<Rightarrow> 'd table" where
  "drop_duplicates t = t\<lparr>rows := keep_first [] (rows t)\<rparr>"

subsection \<open>\<^verbatim>\<open>DataFrame.merge\<close> with \<^verbatim>\<open>how='left'\<close> on one label\<close>

text \<open>
  The dtypes of the two key columns. pandas raises \<^verbatim>\<open>ValueError\<close> for a text column
  against a numeric one and for a timestamp column against any other; it makes no check
  when exactly one of the two columns is empty.
\<close>

definition key_dtypes_ok :: "'d cell list \<Rightarrow> 'd cell list \<Rightarrow> bool" where
  "key_dtypes_ok lk rk = ((lk = []) \<noteq> (rk = []) \<or> col_kind lk = col_kind rk)"

text \<open>
  The labels of the result. The key column of the right frame is dropped (the label is
  the same on both sides), and a label that then occurs on both sides gets the suffix
  \<^verbatim>\<open>_x\<close> on the left and \<^verbatim>\<open>_y\<close> on the right.
\<close>

definition suffix_left :: "string list \<Rightarrow> string list \<Rightarrow> string list" where
  "suffix_left ls rs = map (\<lambda>c. if c \<in> set rs then c @ ''_x'' else c) ls"

definition suffix_right :: "string list \<Rightarrow> string list \<Rightarrow> string list" where
  "suffix_right ls rs = map (\<lambda>c. if c \<in> set ls then c @ ''_y'' else c) rs"

text \<open>
  The labels that a suffix has made a duplicate of an earlier label on the same side,
  where the label before the suffix was no duplicate. pandas 2 and later raise
  \<^verbatim>\<open>MergeError\<close> when there is one.
\<close>

definition new_dups :: "string list \<Rightarrow> string list \<Rightarrow> string list" where
  "new_dups orig renamed =
     map (\<lambda>p. renamed ! p)
       (filter (\<lambda>p. renamed ! p \<in> set (take p renamed) \<and> orig ! p \<notin> set (take p orig))
          [0..<length renamed])"

text \<open>
  The rows of the result, in the order of the left frame: a left row with no match in the
  right frame is kept once and filled with missing values; a left row with matches gives
  one row for each match, in the order of the right frame.
\<close>

definition matches :: "nat \<Rightarrow> 'd cell \<Rightarrow> 'd cell list list \<Rightarrow> 'd cell list list" where
  "matches j key rs = filter (\<lambda>r. r ! j = key) rs"

definition join_row :: "nat \<Rightarrow> nat \<Rightarrow> nat \<Rightarrow> 'd cell list list \<Rightarrow> 'd cell list \<Rightarrow> 'd cell list list" where
  "join_row i j w rs l =
     (case matches j (l ! i) rs of
        [] \<Rightarrow> [l @ replicate w NaN]
      | ms \<Rightarrow> map (\<lambda>r. l @ drop_nth j r) ms)"

definition left_rows :: "nat \<Rightarrow> nat \<Rightarrow> nat \<Rightarrow> 'd cell list list \<Rightarrow> 'd cell list list \<Rightarrow> 'd cell list list" where
  "left_rows i j w ls rs = concat (map (join_row i j w rs) ls)"

text \<open>
  The labels of the two sides before the suffixes: the left labels and the right labels
  without the key, or, in pandas 1 for a left frame without rows, the left labels without
  the key and the right labels.
\<close>

definition merge_labels :: "'d pandas \<Rightarrow> 'd table \<Rightarrow> 'd table \<Rightarrow> nat \<Rightarrow> nat \<Rightarrow> string list \<times> string list" where
  "merge_labels lib L R i j =
     (if rows L = [] \<and> empty_left_drops_left_key lib
      then (drop_nth i (columns L), columns R)
      else (columns L, drop_nth j (columns R)))"

text \<open>
  The merge. pandas looks the key up in the right frame first, then in the left one, then
  compares the dtypes of the two key columns, joins, and names the columns last.
\<close>

definition merge :: "'d pandas \<Rightarrow> 'd table \<Rightarrow> 'd table \<Rightarrow> string \<Rightarrow> error + 'd table" where
  "merge lib L R k =
     (case label_pos k (columns R) of
        Inl e \<Rightarrow> Inl e
      | Inr j \<Rightarrow>
          (case label_pos k (columns L) of
             Inl e \<Rightarrow> Inl e
           | Inr i \<Rightarrow>
               if \<not> key_dtypes_ok (column i L) (column j R) then Inl (ValueError k)
               else
                 (case merge_labels lib L R i j of
                    (ls, rs) \<Rightarrow>
                      if suffix_collision_raises lib
                         \<and> new_dups ls (suffix_left ls rs) @ new_dups rs (suffix_right ls rs) \<noteq> []
                      then Inl (MergeError k)
                      else
                        Inr \<lparr>columns = suffix_left ls rs @ suffix_right ls rs,
                             rows = left_rows i j (length (columns R) - 1) (rows L) (rows R)\<rparr>)))"

text \<open>The method on objects: the result is a new object.\<close>

definition df_merge :: "'d pandas \<Rightarrow> 'd heap \<Rightarrow> ref \<Rightarrow> ref \<Rightarrow> string \<Rightarrow> (error + ref) \<times> 'd heap" where
  "df_merge lib h l r k =
     (case deref h l of
        Inl e \<Rightarrow> (Inl e, h)
      | Inr L \<Rightarrow>
          (case deref h r of
             Inl e \<Rightarrow> (Inl e, h)
           | Inr R \<Rightarrow>
               (case merge lib L R k of
                  Inl e \<Rightarrow> (Inl e, h)
                | Inr t \<Rightarrow> (case alloc h t of (p, h') \<Rightarrow> (Inr p, h')))))"

subsection \<open>The assignment of the converted column\<close>

text \<open>
  \<^verbatim>\<open>df[k] = pd.to_datetime(df[k])\<close> on a frame: \<^verbatim>\<open>df[k]\<close> raises \<^verbatim>\<open>KeyError\<close> without
  such a column, and is a frame, which \<^verbatim>\<open>to_datetime\<close> refuses, when several columns
  bear the label. \<^verbatim>\<open>to_datetime\<close> gets the values of the column and raises or returns as
  many values; the assignment replaces the cells of that column and no other. (A library
  that returned another number of values would make the assignment raise.)
\<close>

definition set_datetime :: "'d pandas \<Rightarrow> string \<Rightarrow> 'd table \<Rightarrow> error + 'd table" where
  "set_datetime lib k t =
     (case label_pos k (columns t) of
        Inl e \<Rightarrow> Inl e
      | Inr i \<Rightarrow>
          (case to_datetime lib (column i t) of
             Inl e \<Rightarrow> Inl e
           | Inr ds \<Rightarrow>
               if length ds \<noteq> length (rows t) then Inl (ValueError k)
               else Inr (t\<lparr>rows := map2 (\<lambda>r d. r[i := d]) (rows t) ds\<rparr>)))"

text \<open>On objects the assignment changes the object in place.\<close>

definition df_set_datetime :: "'d pandas \<Rightarrow> 'd heap \<Rightarrow> ref \<Rightarrow> string \<Rightarrow> (error + unit) \<times> 'd heap" where
  "df_set_datetime lib h p k =
     (case deref h p of
        Inl e \<Rightarrow> (Inl e, h)
      | Inr t \<Rightarrow>
          (case set_datetime lib k t of
             Inl e \<Rightarrow> (Inl e, h)
           | Inr t' \<Rightarrow> (Inr (), h[p := t'])))"

section \<open>\<^verbatim>\<open>merge_data\<close>\<close>

text \<open>
  The loop that unpacks \<^verbatim>\<open>df_list\<close>. The local variables \<^verbatim>\<open>df_sl\<close>, \<^verbatim>\<open>df_it\<close> and
  \<^verbatim>\<open>df_ic\<close> are unbound until an entry of their name is met; the map \<open>v\<close> holds the bound
  ones.
\<close>

fun unpack :: "'d heap \<Rightarrow> named_df list \<Rightarrow> (string \<rightharpoonup> ref) \<Rightarrow> (error + (string \<rightharpoonup> ref)) \<times> 'd heap" where
  "unpack h [] v = (Inr v, h)"
| "unpack h (e # es) v =
     (if df_name e = ''df_sl'' then
        (case df_copy h (df e) of
           (Inl err, h') \<Rightarrow> (Inl err, h')
         | (Inr p, h') \<Rightarrow> unpack h' es (v(''df_sl'' \<mapsto> p)))
      else if df_name e = ''df_it'' then
        (case df_copy h (df e) of
           (Inl err, h') \<Rightarrow> (Inl err, h')
         | (Inr p, h') \<Rightarrow> unpack h' es (v(''df_it'' \<mapsto> p)))
      else if df_name e = ''df_ic'' then
        (case df_copy h (df e) of
           (Inl err, h') \<Rightarrow> (Inl err, h')
         | (Inr p, h') \<Rightarrow> unpack h' es (v(''df_ic'' \<mapsto> p)))
      else unpack h es v)"

text \<open>Reading a local variable: \<^verbatim>\<open>UnboundLocalError\<close> when it was never assigned.\<close>

definition local_var :: "(string \<rightharpoonup> ref) \<Rightarrow> string \<Rightarrow> error + ref" where
  "local_var v x = (case v x of None \<Rightarrow> Inl (UnboundLocalError x) | Some p \<Rightarrow> Inr p)"

text \<open>
  The function. In \<^verbatim>\<open>df_it.merge(right=df_ic, ...)\<close> Python reads \<^verbatim>\<open>df_it\<close> first, then
  \<^verbatim>\<open>df_ic\<close>; \<^verbatim>\<open>df_sl\<close> is read only after the first merge has returned.
\<close>

definition merge_data :: "'d pandas \<Rightarrow> 'd heap \<Rightarrow> named_df list \<Rightarrow> (error + ref) \<times> 'd heap" where
  "merge_data lib h df_list =
     (case unpack h df_list Map.empty of
        (Inl e, h1) \<Rightarrow> (Inl e, h1)
      | (Inr v, h1) \<Rightarrow>
     (case local_var v ''df_it'' of
        Inl e \<Rightarrow> (Inl e, h1)
      | Inr df_it \<Rightarrow>
     (case local_var v ''df_ic'' of
        Inl e \<Rightarrow> (Inl e, h1)
      | Inr df_ic \<Rightarrow>
     (case df_merge lib h1 df_it df_ic ''item_category_id'' of
        (Inl e, h2) \<Rightarrow> (Inl e, h2)
      | (Inr df1, h2) \<Rightarrow>
     (case local_var v ''df_sl'' of
        Inl e \<Rightarrow> (Inl e, h2)
      | Inr df_sl \<Rightarrow>
     (case df_merge lib h2 df_sl df1 ''item_id'' of
        (Inl e, h3) \<Rightarrow> (Inl e, h3)
      | (Inr df2, h3) \<Rightarrow>
     (case df_set_datetime lib h3 df2 ''date'' of
        (Inl e, h4) \<Rightarrow> (Inl e, h4)
      | (Inr u, h4) \<Rightarrow> (Inr df2, h4))))))))"

text \<open>What the caller sees of a call: the error, or the frame behind the returned reference.\<close>

definition merged_table :: "'d pandas \<Rightarrow> 'd heap \<Rightarrow> named_df list \<Rightarrow> error + 'd table" where
  "merged_table lib h df_list =
     (case merge_data lib h df_list of
        (Inl e, h') \<Rightarrow> Inl e
      | (Inr p, h') \<Rightarrow> deref h' p)"

section \<open>Storage and the two functions that use it\<close>

text \<open>
  The world outside the process: the objects of the process, the files by path (an object
  of the bucket is the file whose path starts with \<^verbatim>\<open>gcs://\<close>), which paths can be written,
  and what has been printed and written so far, in order. A write that fails leaves the
  files as they were.
\<close>

datatype event = Print string | Write string string

record 'd world =
  heap :: "'d heap"
  files :: "string \<rightharpoonup> string"
  writable :: "string \<Rightarrow> bool"
  trace :: "event list"

definition print :: "'d world \<Rightarrow> string \<Rightarrow> 'd world" where
  "print w s = w\<lparr>trace := trace w @ [Print s]\<rparr>"

definition read_csv :: "'d pandas \<Rightarrow> 'd world \<Rightarrow> string \<Rightarrow> error + 'd table" where
  "read_csv lib w path =
     (case files w path of
        None \<Rightarrow> Inl (FileNotFoundError path)
      | Some s \<Rightarrow> (case read_csv_text lib s of None \<Rightarrow> Inl ParserError | Some t \<Rightarrow> Inr t))"

definition to_csv :: "'d pandas \<Rightarrow> 'd world \<Rightarrow> ref \<Rightarrow> string \<Rightarrow> bool \<Rightarrow> (error + unit) \<times> 'd world" where
  "to_csv lib w p path index =
     (case deref (heap w) p of
        Inl e \<Rightarrow> (Inl e, w)
      | Inr t \<Rightarrow>
          if writable w path then
            (Inr (), w\<lparr>files := (files w)(path \<mapsto> to_csv_text lib index t),
                       trace := trace w @ [Write path (to_csv_text lib index t)]\<rparr>)
          else (Inl (OSError path), w))"

subsection \<open>\<^verbatim>\<open>import_gcs_data\<close>\<close>

definition import_uri :: "import_data \<Rightarrow> string" where
  "import_uri d = ''gcs://'' @ import_data.bucket_name d @ ''/'' @ import_data_folder d @ ''/'' @ import_data.filename d"

definition import_gcs_data :: "'d pandas \<Rightarrow> 'd world \<Rightarrow> import_data \<Rightarrow> (error + named_df) \<times> 'd world" where
  "import_gcs_data lib w d =
     (case read_csv lib w (import_uri d) of
        Inl e \<Rightarrow> (Inl e, w)
      | Inr t \<Rightarrow>
          (case alloc (heap w) t of (p, h1) \<Rightarrow>
          (case alloc h1 (drop_duplicates t) of (q, h2) \<Rightarrow>
             (Inr \<lparr>df_name = import_data.df_name d, df = q\<rparr>, w\<lparr>heap := h2\<rparr>))))"

subsection \<open>\<^verbatim>\<open>export_data_gcs\<close>\<close>

definition gcs_path :: "export_data \<Rightarrow> string" where
  "gcs_path d = ''gcs://'' @ export_data.bucket_name d @ ''/'' @ export_data_folder d @ ''/'' @ export_data.filename d"

definition local_path :: "export_data \<Rightarrow> string" where
  "local_path d = local_export_folder d @ ''/'' @ export_data.filename d"

definition export_data_gcs :: "'d pandas \<Rightarrow> 'd world \<Rightarrow> ref \<Rightarrow> export_data \<Rightarrow> (error + ref) \<times> 'd world" where
  "export_data_gcs lib w df_ref d =
     (case to_csv lib (print w (''Exporting '' @ export_data.filename d @ '' to GCS'')) df_ref (gcs_path d) False of
        (Inl e, w1) \<Rightarrow> (Inl e, w1)
      | (Inr u, w1) \<Rightarrow>
          (case to_csv lib (print w1 (''Exporting '' @ export_data.filename d @ '' to '' @ local_export_folder d))
                  df_ref (local_path d) False of
             (Inl e, w2) \<Rightarrow> (Inl e, w2)
           | (Inr u', w2) \<Rightarrow> (Inr df_ref, w2)))"


section \<open>Notions used to state the properties\<close>

text \<open>
  The names that \<^verbatim>\<open>merge_data\<close> looks for, and the entry that counts for a name: the
  last one of that name in the list.
\<close>

definition expected :: "string \<Rightarrow> bool" where
  "expected n = (n = ''df_sl'' \<or> n = ''df_it'' \<or> n = ''df_ic'')"

definition selected :: "named_df list \<Rightarrow> string \<Rightarrow> ref option" where
  "selected l n = (case filter (\<lambda>e. df_name e = n) l of [] \<Rightarrow> None | es \<Rightarrow> Some (df (last es)))"

text \<open>Every entry of the list refers to an object that exists.\<close>

definition valid_refs :: "'d heap \<Rightarrow> named_df list \<Rightarrow> bool" where
  "valid_refs h l = list_all (\<lambda>e. df e < length h) l"

text \<open>The frame that the entry selected for a name refers to, before the call.\<close>

definition frame_of :: "'d heap \<Rightarrow> named_df list \<Rightarrow> string \<Rightarrow> 'd table option" where
  "frame_of h l n = map_option (\<lambda>r. h ! r) (selected l n)"

text \<open>An object store that holds all objects of another one, unchanged, and maybe more.\<close>

definition extends :: "'a list \<Rightarrow> 'a list \<Rightarrow> bool" where
  "extends h h' = (length h \<le> length h' \<and> take (length h) h' = h)"

text \<open>
  The result of \<^verbatim>\<open>merge_data\<close> as a function of the three frames, each of which may be
  missing: the errors come in the order in which Python meets them.
\<close>

definition merge_frames :: "'d pandas \<Rightarrow> 'd table option \<Rightarrow> 'd table option \<Rightarrow> 'd table option \<Rightarrow> error + 'd table" where
  "merge_frames lib sl it ic =
     (case it of None \<Rightarrow> Inl (UnboundLocalError ''df_it'') | Some IT \<Rightarrow>
     (case ic of None \<Rightarrow> Inl (UnboundLocalError ''df_ic'') | Some IC \<Rightarrow>
     (case merge lib IT IC ''item_category_id'' of Inl e \<Rightarrow> Inl e | Inr J \<Rightarrow>
     (case sl of None \<Rightarrow> Inl (UnboundLocalError ''df_sl'') | Some SL \<Rightarrow>
     (case merge lib SL J ''item_id'' of Inl e \<Rightarrow> Inl e | Inr M \<Rightarrow>
        set_datetime lib ''date'' M)))))"

text \<open>
  The steps as the specification words them. A frame \<open>M\<close> is a left join of \<open>L\<close> to \<open>R\<close>
  on the column \<open>k\<close> when both frames have one column \<open>k\<close> and
  \<^item> \<open>M\<close> has one label for each label of \<open>L\<close> and for each label of \<open>R\<close> but the key;
  \<^item> every row of \<open>M\<close> is a row of \<open>L\<close> followed by the cells, the key apart, of a row of
    \<open>R\<close> with the same value in the column \<open>k\<close>, or, when \<open>R\<close> has no such row, followed by
    missing values;
  \<^item> every such pair of rows is in \<open>M\<close>;
  \<^item> the left parts of the rows of \<open>M\<close> are the rows of \<open>L\<close> in their order, each as many
    times as \<open>R\<close> has rows with its key value, and once when there is none.

  The number of rows with a given key value is written with its own filter, so that the
  predicate does not depend on how \<^verbatim>\<open>merge\<close> looks for matches.
\<close>

definition match_count :: "nat \<Rightarrow> 'd cell \<Rightarrow> 'd cell list list \<Rightarrow> nat" where
  "match_count j key rs = length (filter (\<lambda>r. r ! j = key) rs)"

definition left_join_on :: "string \<Rightarrow> 'd table \<Rightarrow> 'd table \<Rightarrow> 'd table \<Rightarrow> bool" where
  "left_join_on k L R M =
     (case label_pos k (columns L) of
        Inl e \<Rightarrow> False
      | Inr i \<Rightarrow>
          (case label_pos k (columns R) of
             Inl e \<Rightarrow> False
           | Inr j \<Rightarrow>
               length (columns M) = length (columns L) + length (columns R) - 1
             \<and> (\<forall>row\<in>set (rows M). \<exists>l\<in>set (rows L).
                    (\<exists>r\<in>set (rows R). r ! j = l ! i \<and> row = l @ drop_nth j r)
                  \<or> ((\<forall>r\<in>set (rows R). r ! j \<noteq> l ! i)
                      \<and> row = l @ replicate (length (columns R) - 1) NaN))
             \<and> (\<forall>l\<in>set (rows L). \<forall>r\<in>set (rows R).
                    r ! j = l ! i \<longrightarrow> l @ drop_nth j r \<in> set (rows M))
             \<and> map (take (length (columns L))) (rows M)
                   = concat (map (\<lambda>l. replicate (max 1 (match_count j (l ! i) (rows R))) l) (rows L))))"

text \<open>
  A frame \<open>out\<close> is \<open>M\<close> with the column \<open>k\<close> converted when it has the labels of \<open>M\<close>, its
  column \<open>k\<close> is what \<^verbatim>\<open>to_datetime\<close> returns for the column \<open>k\<close> of \<open>M\<close>, and each of its
  rows is the row of \<open>M\<close> with at most that one cell replaced.
\<close>

definition converted_on :: "'d pandas \<Rightarrow> string \<Rightarrow> 'd table \<Rightarrow> 'd table \<Rightarrow> bool" where
  "converted_on lib k M out =
     (case label_pos k (columns M) of
        Inl e \<Rightarrow> False
      | Inr i \<Rightarrow>
          columns out = columns M
        \<and> to_datetime lib (column i M) = Inr (column i out)
        \<and> list_all2 (\<lambda>r r'. r' = r[i := r' ! i]) (rows M) (rows out))"

text \<open>
  A key is unique in a frame when the frame has one column of that label and no value
  occurs twice in it. A label is plain when it does not end in one of the suffixes that
  \<^verbatim>\<open>merge\<close> appends.
\<close>

definition unique_key :: "string \<Rightarrow> 'd table \<Rightarrow> bool" where
  "unique_key k t =
     (case label_pos k (columns t) of
        Inl e \<Rightarrow> False
      | Inr i \<Rightarrow> distinct (map (\<lambda>r. r ! i) (rows t)))"

definition plain_label :: "string \<Rightarrow> bool" where
  "plain_label k = (take 2 (rev k) \<noteq> ''x_'' \<and> take 2 (rev k) \<noteq> ''y_'')"

text \<open>The writes in a trace, in order.\<close>

fun written :: "event list \<Rightarrow> (string \<times> string) list" where
  "written [] = []"
| "written (Print s # es) = written es"
| "written (Write path c # es) = (path, c) # written es"

section \<open>A small instance\<close>

text \<open>
  An instance of the library and a few frames, files and dicts, on which the functions
  are run. Timestamps are texts here, and the CSV writer prints one line for the labels
  and one line for each row.

  The instance of \<^verbatim>\<open>to_datetime\<close> knows two texts and does what pandas 2 does with
  them: it reads the first text of the column month first, and day first when that fails,
  and then reads every text of the column in that way. So \<^verbatim>\<open>02.01.2013\<close> is the first of
  February in a column that it starts, and the second of January after \<^verbatim>\<open>15.01.2013\<close>;
  and a column in which \<^verbatim>\<open>15.01.2013\<close> comes after \<^verbatim>\<open>02.01.2013\<close> raises.
\<close>

function show_nat :: "nat \<Rightarrow> string" where
  "show_nat n = (if n < 10 then [''0123456789'' ! n] else show_nat (n div 10) @ [''0123456789'' ! (n mod 10)])"
  by pat_completeness auto
termination
  by (relation "measure id") auto

definition ex_cell_text :: "string cell \<Rightarrow> string" where
  "ex_cell_text c =
     (case c of NaN \<Rightarrow> '''' | Num n \<Rightarrow> (if n < 0 then ''-'' @ show_nat (nat (- n)) else show_nat (nat n))
      | Str s \<Rightarrow> s | Date d \<Rightarrow> d)"

fun comma_join :: "string list \<Rightarrow> string" where
  "comma_join [] = []"
| "comma_join [x] = x"
| "comma_join (x # y # zs) = x @ '','' @ comma_join (y # zs)"

definition ex_to_csv :: "bool \<Rightarrow> string table \<Rightarrow> string" where
  "ex_to_csv index t =
     concat (map (\<lambda>l. l @ ''\<newline>'')
       (comma_join ((if index then [''''] else []) @ columns t)
        # map (\<lambda>(n, r). comma_join ((if index then [show_nat n] else []) @ map ex_cell_text r))
              (zip [0..<length (rows t)] (rows t))))"

definition ex_raw :: "string table" where
  "ex_raw = \<lparr>columns = [''item_id'', ''qty''], rows = [[Num 1, Num 5], [Num 1, Num 5], [Num 2, Num 7]]\<rparr>"

definition ex_parse :: "bool \<Rightarrow> string \<Rightarrow> string option" where
  "ex_parse dayfirst s =
     (if s = ''15.01.2013'' then (if dayfirst then Some ''2013-01-15'' else None)
      else if s = ''02.01.2013'' then Some (if dayfirst then ''2013-01-02'' else ''2013-02-01'')
      else None)"

fun first_text :: "'d cell list \<Rightarrow> string option" where
  "first_text [] = None"
| "first_text (Str s # cs) = Some s"
| "first_text (c # cs) = first_text cs"

fun ex_convert :: "bool \<Rightarrow> string cell list \<Rightarrow> error + string cell list" where
  "ex_convert dayfirst [] = Inr []"
| "ex_convert dayfirst (c # cs) =
     (case (case c of
              NaN \<Rightarrow> Inr NaN
            | Num n \<Rightarrow> Inl (ValueError ''number'')
            | Str s \<Rightarrow> (case ex_parse dayfirst s of None \<Rightarrow> Inl (ValueError s) | Some d \<Rightarrow> Inr (Date d))
            | Date d \<Rightarrow> Inr (Date d)) of
        Inl e \<Rightarrow> Inl e
      | Inr d \<Rightarrow> (case ex_convert dayfirst cs of Inl e \<Rightarrow> Inl e | Inr ds \<Rightarrow> Inr (d # ds)))"

definition ex_to_datetime :: "string cell list \<Rightarrow> error + string cell list" where
  "ex_to_datetime cs =
     ex_convert (case first_text cs of None \<Rightarrow> False | Some s \<Rightarrow> ex_parse False s = None) cs"

definition ex_lib :: "string pandas" where
  "ex_lib = \<lparr>read_csv_text = (\<lambda>s. if s = ''item_id,qty\<newline>1,5\<newline>1,5\<newline>2,7\<newline>'' then Some ex_raw else None),
             to_csv_text = ex_to_csv,
             to_datetime = ex_to_datetime,
             suffix_collision_raises = True,
             empty_left_drops_left_key = False\<rparr>"

definition ex_import :: import_data where
  "ex_import = \<lparr>import_data.bucket_name = ''bucket'', import_data_folder = ''raw'',
                import_data.filename = ''sales.csv'', import_data.df_name = ''df_sl''\<rparr>"

definition ex_export :: export_data where
  "ex_export = \<lparr>bucket_name = ''bucket'', export_data_folder = ''out'',
                local_export_folder = ''data'', filename = ''merged.csv''\<rparr>"

definition ex_world :: "string world" where
  "ex_world = \<lparr>heap = [ex_raw],
               files = [''gcs://bucket/raw/sales.csv'' \<mapsto> ''item_id,qty\<newline>1,5\<newline>1,5\<newline>2,7\<newline>''],
               writable = (\<lambda>p. True),
               trace = []\<rparr>"

definition ex_world_ro :: "string world" where
  "ex_world_ro = ex_world\<lparr>writable := (\<lambda>p. take 6 p = ''gcs://'')\<rparr>"

definition ex_sales :: "string table" where
  "ex_sales = \<lparr>columns = [''item_id'', ''date'', ''qty''], rows = [[Num 1, Str ''15.01.2013'', Num 5]]\<rparr>"

definition ex_sales_log :: "string table" where
  "ex_sales_log = \<lparr>columns = [''item_id'', ''date'', ''qty''],
                   rows = [[Num 2, Str ''15.01.2013'', Num 5],
                           [Num 1, Str ''02.01.2013'', Num 3],
                           [Num 7, Str ''15.01.2013'', Num 1],
                           [Num 1, Str ''15.01.2013'', Num 4]]\<rparr>"

definition ex_sales_one :: "string table" where
  "ex_sales_one = \<lparr>columns = [''item_id'', ''date'', ''qty''], rows = [[Num 1, Str ''02.01.2013'', Num 3]]\<rparr>"

definition ex_items :: "string table" where
  "ex_items = \<lparr>columns = [''item_id'', ''item_category_id''], rows = [[Num 1, Num 10], [Num 2, Num 11]]\<rparr>"

definition ex_items_dup :: "string table" where
  "ex_items_dup = \<lparr>columns = [''item_id'', ''item_category_id''], rows = [[Num 1, Num 10], [Num 1, Num 11]]\<rparr>"

definition ex_items_text :: "string table" where
  "ex_items_text = \<lparr>columns = [''item_id'', ''item_category_id''], rows = [[Num 1, Str ''ten'']]\<rparr>"

definition ex_cats :: "string table" where
  "ex_cats = \<lparr>columns = [''item_category_id'', ''name''], rows = [[Num 10, Str ''a''], [Num 11, Str ''b'']]\<rparr>"

definition ex_list :: "named_df list" where
  "ex_list = [\<lparr>df_name = ''df_sl'', df = 0\<rparr>, \<lparr>df_name = ''df_it'', df = 1\<rparr>, \<lparr>df_name = ''df_ic'', df = 2\<rparr>]"

definition ex_list_more :: "named_df list" where
  "ex_list_more = [\<lparr>df_name = ''df_it'', df = 3\<rparr>, \<lparr>df_name = ''notes'', df = 0\<rparr>,
                   \<lparr>df_name = ''df_sl'', df = 0\<rparr>, \<lparr>df_name = ''df_it'', df = 1\<rparr>,
                   \<lparr>df_name = ''df_ic'', df = 2\<rparr>]"

definition ex_item_table :: "string table" where
  "ex_item_table = \<lparr>columns = [''item_id'', ''item_category_id'', ''name''],
                    rows = [[Num 1, Num 10, Str ''a''], [Num 2, Num 11, Str ''b'']]\<rparr>"

definition ex_joined :: "string table" where
  "ex_joined = \<lparr>columns = [''item_id'', ''date'', ''qty'', ''item_category_id'', ''name''],
                rows = [[Num 2, Str ''15.01.2013'', Num 5, Num 11, Str ''b''],
                        [Num 1, Str ''02.01.2013'', Num 3, Num 10, Str ''a''],
                        [Num 7, Str ''15.01.2013'', Num 1, NaN, NaN],
                        [Num 1, Str ''15.01.2013'', Num 4, Num 10, Str ''a'']]\<rparr>"

definition ex_merged :: "string table" where
  "ex_merged = \<lparr>columns = [''item_id'', ''date'', ''qty'', ''item_category_id'', ''name''],
                rows = [[Num 2, Date ''2013-01-15'', Num 5, Num 11, Str ''b''],
                        [Num 1, Date ''2013-01-02'', Num 3, Num 10, Str ''a''],
                        [Num 7, Date ''2013-01-15'', Num 1, NaN, NaN],
                        [Num 1, Date ''2013-01-15'', Num 4, Num 10, Str ''a'']]\<rparr>"

section \<open>Lemmas\<close>

subsection \<open>The entry selected for a name\<close>

lemma selected_Nil [simp]: "selected [] n = None"
  by (simp add: selected_def)

lemma selected_Cons:
  "selected (e # es) n =
     (case selected es n of Some r \<Rightarrow> Some r | None \<Rightarrow> if df_name e = n then Some (df e) else None)"
  by (cases "filter (\<lambda>e. df_name e = n) es") (simp_all add: selected_def)

lemma selected_in: "selected l n = Some r \<Longrightarrow> \<exists>e\<in>set l. df e = r \<and> df_name e = n"
proof (induction l)
  case Nil
  then show ?case by simp
next
  case (Cons e es)
  show ?case
  proof (cases "selected es n")
    case None
    with Cons.prems have "df_name e = n \<and> df e = r"
      by (simp add: selected_Cons split: if_splits)
    then show ?thesis by simp
  next
    case (Some r')
    with Cons.prems have "r' = r" by (simp add: selected_Cons)
    with Some Cons.IH show ?thesis by simp
  qed
qed

lemma selected_None_iff: "selected l n = None \<longleftrightarrow> n \<notin> df_name ` set l"
  by (induction l) (auto simp: selected_Cons split: option.splits)

subsection \<open>Object stores\<close>

lemma extends_refl [simp]: "extends h h"
  by (simp add: extends_def)

lemma extends_trans: "extends a b \<Longrightarrow> extends b c \<Longrightarrow> extends a c"
proof -
  assume ab: "extends a b" and bc: "extends b c"
  have "take (length a) c = take (length a) (take (length b) c)"
    using ab by (simp add: extends_def min_def)
  also have "\<dots> = a"
    using ab bc by (simp add: extends_def)
  finally show ?thesis
    using ab bc by (simp add: extends_def)
qed

lemma extends_snoc [simp]: "extends h (h @ [t])"
  by (simp add: extends_def)

lemma extends_nth: "extends h h' \<Longrightarrow> r < length h \<Longrightarrow> h' ! r = h ! r"
proof -
  assume e: "extends h h'" and r: "r < length h"
  have "take (length h) h' ! r = h' ! r"
    using r by simp
  with e show ?thesis by (simp add: extends_def)
qed

lemma extends_update: "extends h h' \<Longrightarrow> length h \<le> p \<Longrightarrow> extends h (h'[p := t])"
  by (simp add: extends_def)

lemma df_copy_valid: "r < length h \<Longrightarrow> df_copy h r = (Inr (length h), h @ [h ! r])"
  by (simp add: df_copy_def deref_def alloc_def)

lemma df_copy_invalid: "\<not> r < length h \<Longrightarrow> df_copy h r = (Inl (DanglingRef r), h)"
  by (simp add: df_copy_def deref_def)

lemma df_merge_valid:
  "l < length h \<Longrightarrow> r < length h \<Longrightarrow>
     df_merge lib h l r k =
       (case merge lib (h ! l) (h ! r) k of Inl e \<Rightarrow> (Inl e, h) | Inr t \<Rightarrow> (Inr (length h), h @ [t]))"
  by (simp add: df_merge_def deref_def alloc_def split: sum.splits)

lemma df_set_datetime_valid:
  "p < length h \<Longrightarrow>
     df_set_datetime lib h p k =
       (case set_datetime lib k (h ! p) of Inl e \<Rightarrow> (Inl e, h) | Inr t \<Rightarrow> (Inr (), h[p := t]))"
  by (simp add: df_set_datetime_def deref_def split: sum.splits)

lemma df_merge_result:
  "df_merge lib h l r k = (res, h') \<Longrightarrow>
     (\<exists>e. res = Inl e \<and> h' = h) \<or> (\<exists>t. res = Inr (length h) \<and> h' = h @ [t])"
  by (auto simp: df_merge_def alloc_def split: sum.splits)

lemma df_set_datetime_result:
  "df_set_datetime lib h p k = (res, h') \<Longrightarrow> h' = h \<or> (\<exists>t. h' = h[p := t])"
  by (auto simp: df_set_datetime_def split: sum.splits)

lemma df_merge_extends:
  assumes "df_merge lib h0 a b k = (res, h2)" "extends h h0"
  shows "extends h h2 \<and> (\<forall>p. res = Inr p \<longrightarrow> length h \<le> p)"
proof -
  from df_merge_result [OF assms(1)] show ?thesis
  proof
    assume "\<exists>e. res = Inl e \<and> h2 = h0"
    with assms(2) show ?thesis by auto
  next
    assume "\<exists>t. res = Inr (length h0) \<and> h2 = h0 @ [t]"
    then obtain t where t: "res = Inr (length h0)" "h2 = h0 @ [t]" by blast
    have "extends h (h0 @ [t])"
      using assms(2) extends_snoc by (rule extends_trans)
    moreover have "length h \<le> length h0"
      using assms(2) by (simp only: extends_def)
    ultimately show ?thesis
      using t by simp
  qed
qed

lemma df_set_datetime_extends:
  assumes "df_set_datetime lib h3 p k = (res, h4)" "extends h h3" "length h \<le> p"
  shows "extends h h4"
proof -
  from df_set_datetime_result [OF assms(1)] show ?thesis
  proof
    assume "h4 = h3"
    with assms(2) show ?thesis by simp
  next
    assume "\<exists>t. h4 = h3[p := t]"
    then obtain t where "h4 = h3[p := t]" by blast
    with extends_update [OF assms(2,3)] show ?thesis by simp
  qed
qed

subsection \<open>The unpacking loop\<close>

lemma unpack_extends: "extends h (snd (unpack h l v))"
proof (induction l arbitrary: h v)
  case Nil
  then show ?case by simp
next
  case (Cons e es)
  have step: "extends h (snd (case df_copy h (df e) of (Inl err, h') \<Rightarrow> (Inl err, h')
               | (Inr p, h') \<Rightarrow> unpack h' es (v(x \<mapsto> p))))" for x
  proof (cases "df e < length h")
    case True
    have "extends (h @ [h ! df e]) (snd (unpack (h @ [h ! df e]) es (v(x \<mapsto> length h))))"
      by (rule Cons.IH)
    then have "extends h (snd (unpack (h @ [h ! df e]) es (v(x \<mapsto> length h))))"
      by (rule extends_trans [OF extends_snoc])
    then show ?thesis
      using True by (simp add: df_copy_valid)
  next
    case False
    then show ?thesis by (simp add: df_copy_invalid)
  qed
  show ?case
    using step [of "''df_sl''"] step [of "''df_it''"] step [of "''df_ic''"] Cons.IH [of h v]
    by (simp only: unpack.simps split: if_splits) simp
qed

lemma unpack_other: "\<not> expected (df_name e) \<Longrightarrow> unpack h (e # es) v = unpack h es v"
  by (simp add: expected_def)

lemma unpack_expected:
  "expected (df_name e) \<Longrightarrow> df e < length h \<Longrightarrow>
     unpack h (e # es) v = unpack (h @ [h ! df e]) es (v(df_name e \<mapsto> length h))"
  by (auto simp: expected_def df_copy_valid)

lemma unpack_filter:
  "unpack h (filter (\<lambda>e. expected (df_name e)) l) v = unpack h l v"
proof (induction l arbitrary: h v)
  case Nil
  then show ?case by simp
next
  case (Cons e es)
  show ?case
  proof (cases "expected (df_name e)")
    case False
    then show ?thesis
      using Cons.IH [of h v] by (simp add: unpack_other [OF False] del: unpack.simps)
  next
    case True
    then have "filter (\<lambda>e. expected (df_name e)) (e # es) = e # filter (\<lambda>e. expected (df_name e)) es"
      by simp
    moreover have "unpack h (e # filter (\<lambda>e. expected (df_name e)) es) v = unpack h (e # es) v"
      by (simp only: unpack.simps Cons.IH)
    ultimately show ?thesis
      by (simp only:)
  qed
qed

lemma unpack_char:
  assumes "valid_refs h l"
  shows "\<exists>v' h'. unpack h l v = (Inr v', h') \<and> extends h h' \<and>
           (\<forall>n. expected n \<longrightarrow>
              (case selected l n of
                 None \<Rightarrow> v' n = v n
               | Some r \<Rightarrow> \<exists>p. v' n = Some p \<and> p < length h' \<and> h' ! p = h ! r))"
  using assms
proof (induction l arbitrary: h v)
  case Nil
  then show ?case by simp
next
  case (Cons e es)
  from Cons.prems have ve: "df e < length h" and ves: "valid_refs h es"
    by (simp_all add: valid_refs_def)
  show ?case
  proof (cases "expected (df_name e)")
    case False
    have sel: "selected (e # es) n = selected es n" if "expected n" for n
    proof -
      from that False have "df_name e \<noteq> n" by auto
      then show ?thesis by (simp add: selected_Cons split: option.splits)
    qed
    from Cons.IH [OF ves, of v] obtain v' h' where
      r: "unpack h es v = (Inr v', h')" and ext: "extends h h'" and
      c: "\<forall>n. expected n \<longrightarrow>
              (case selected es n of
                 None \<Rightarrow> v' n = v n
               | Some r \<Rightarrow> \<exists>p. v' n = Some p \<and> p < length h' \<and> h' ! p = h ! r)"
      by blast
    from c sel have "\<forall>n. expected n \<longrightarrow>
              (case selected (e # es) n of
                 None \<Rightarrow> v' n = v n
               | Some r \<Rightarrow> \<exists>p. v' n = Some p \<and> p < length h' \<and> h' ! p = h ! r)"
      by simp
    moreover have "unpack h (e # es) v = (Inr v', h')"
      using r by (simp only: unpack_other [OF False])
    ultimately show ?thesis
      using ext by blast
  next
    case True
    let ?h = "h @ [h ! df e]"
    let ?v = "v(df_name e \<mapsto> length h)"
    have u: "unpack h (e # es) v = unpack ?h es ?v"
      using True ve by (rule unpack_expected)
    have "valid_refs ?h es"
      using ves by (auto simp: valid_refs_def list_all_iff)
    from Cons.IH [OF this, of ?v] obtain v' h' where
      r: "unpack ?h es ?v = (Inr v', h')" and ext: "extends ?h h'" and
      sel: "\<forall>n. expected n \<longrightarrow>
              (case selected es n of
                 None \<Rightarrow> v' n = ?v n
               | Some r \<Rightarrow> \<exists>p. v' n = Some p \<and> p < length h' \<and> h' ! p = ?h ! r)"
      by blast
    have ext': "extends h h'"
      using extends_snoc ext by (rule extends_trans)
    have new: "length h < length h'" "h' ! length h = h ! df e"
      using ext extends_nth [OF ext, of "length h"] by (simp_all add: extends_def)
    have "case selected (e # es) n of
            None \<Rightarrow> v' n = v n
          | Some r \<Rightarrow> \<exists>p. v' n = Some p \<and> p < length h' \<and> h' ! p = h ! r"
      if en: "expected n" for n
    proof (cases "selected es n")
      case None
      then show ?thesis
        using sel [rule_format, OF en] new by (auto simp: selected_Cons)
    next
      case (Some r)
      then obtain e' where "e' \<in> set es" "df e' = r"
        using selected_in by blast
      then have "r < length h"
        using ves by (auto simp: valid_refs_def list_all_iff)
      then show ?thesis
        using sel [rule_format, OF en] Some by (simp add: selected_Cons nth_append)
    qed
    moreover have "unpack h (e # es) v = (Inr v', h')"
      using u r by (simp only:)
    ultimately show ?thesis
      using ext' by blast
  qed
qed

subsection \<open>\<^verbatim>\<open>merge_data\<close> on the store and on frames\<close>

lemma merge_data_cases:
  assumes "valid_refs h l"
  shows "\<exists>h'. (\<exists>e. merge_data lib h l = (Inl e, h')
                 \<and> merge_frames lib (frame_of h l ''df_sl'') (frame_of h l ''df_it'') (frame_of h l ''df_ic'') = Inl e)
            \<or> (\<exists>p. merge_data lib h l = (Inr p, h') \<and> p < length h'
                 \<and> merge_frames lib (frame_of h l ''df_sl'') (frame_of h l ''df_it'') (frame_of h l ''df_ic'') = Inr (h' ! p))"
proof -
  from unpack_char [OF assms, of Map.empty] obtain v h1 where
    u: "unpack h l Map.empty = (Inr v, h1)" and
    sel: "\<forall>n. expected n \<longrightarrow>
              (case selected l n of
                 None \<Rightarrow> v n = Map.empty n
               | Some r \<Rightarrow> \<exists>p. v n = Some p \<and> p < length h1 \<and> h1 ! p = h ! r)"
    by blast
  have unbound: "v n = None" if "expected n" "selected l n = None" for n
    using sel [rule_format, OF that(1)] that(2) by simp
  have bound: "\<exists>p. v n = Some p \<and> p < length h1 \<and> h1 ! p = h ! r"
    if "expected n" "selected l n = Some r" for n r
    using sel [rule_format, OF that(1)] that(2) by simp
  have ex: "expected ''df_sl''" "expected ''df_it''" "expected ''df_ic''"
    by (simp_all add: expected_def)
  note defs = merge_data_def local_var_def merge_frames_def frame_of_def
  show ?thesis
  proof (cases "selected l ''df_it''")
    case None
    with unbound [OF ex(2)] u show ?thesis by (simp add: defs)
  next
    case it: (Some rit)
    from bound [OF ex(2) it] obtain pit where
      pit: "v ''df_it'' = Some pit" "pit < length h1" "h1 ! pit = h ! rit" by blast
    show ?thesis
    proof (cases "selected l ''df_ic''")
      case None
      with unbound [OF ex(3)] u it pit show ?thesis by (simp add: defs)
    next
      case ic: (Some ric)
      from bound [OF ex(3) ic] obtain pic where
        pic: "v ''df_ic'' = Some pic" "pic < length h1" "h1 ! pic = h ! ric" by blast
      show ?thesis
      proof (cases "merge lib (h ! rit) (h ! ric) ''item_category_id''")
        case (Inl e)
        with u it ic pit pic show ?thesis by (simp add: defs df_merge_valid)
      next
        case J: (Inr J)
        have m1: "df_merge lib h1 pit pic ''item_category_id'' = (Inr (length h1), h1 @ [J])"
          using pit pic J by (simp add: df_merge_valid)
        show ?thesis
        proof (cases "selected l ''df_sl''")
          case None
          with unbound [OF ex(1)] u it ic pit pic J m1 show ?thesis by (simp add: defs)
        next
          case sl: (Some rsl)
          from bound [OF ex(1) sl] obtain psl where
            psl: "v ''df_sl'' = Some psl" "psl < length h1" "h1 ! psl = h ! rsl" by blast
          have m2: "df_merge lib (h1 @ [J]) psl (length h1) ''item_id'' =
                      (case merge lib (h ! rsl) J ''item_id'' of
                         Inl e \<Rightarrow> (Inl e, h1 @ [J])
                       | Inr t \<Rightarrow> (Inr (Suc (length h1)), h1 @ [J, t]))"
            using psl by (simp add: df_merge_valid nth_append split: sum.splits)
          show ?thesis
          proof (cases "merge lib (h ! rsl) J ''item_id''")
            case (Inl e)
            with u it ic sl pit pic psl J m1 m2 show ?thesis by (simp add: defs)
          next
            case M: (Inr M)
            have m3: "df_set_datetime lib (h1 @ [J, M]) (Suc (length h1)) ''date'' =
                        (case set_datetime lib ''date'' M of
                           Inl e \<Rightarrow> (Inl e, h1 @ [J, M])
                         | Inr t \<Rightarrow> (Inr (), h1 @ [J, t]))"
              by (simp add: df_set_datetime_valid nth_append list_update_append split: sum.splits)
            show ?thesis
              using u it ic sl pit pic psl J M m1 m2 m3
              by (cases "set_datetime lib ''date'' M") (simp_all add: defs nth_append)
          qed
        qed
      qed
    qed
  qed
qed

lemma merge_data_char:
  assumes "valid_refs h l"
  shows "merged_table lib h l =
           merge_frames lib (frame_of h l ''df_sl'') (frame_of h l ''df_it'') (frame_of h l ''df_ic'')"
  using merge_data_cases [OF assms, of lib]
  by (auto simp: merged_table_def deref_def)

lemma merge_data_fails:
  assumes "valid_refs h l"
    and "merge_frames lib (frame_of h l ''df_sl'') (frame_of h l ''df_it'') (frame_of h l ''df_ic'') = Inl e"
  shows "fst (merge_data lib h l) = Inl e"
  using merge_data_cases [OF assms(1), of lib] assms(2)
  by auto

lemma merge_data_extends: "extends h (snd (merge_data lib h l))"
proof -
  obtain x h1 where u: "unpack h l Map.empty = (x, h1)"
    by (cases "unpack h l Map.empty")
  have e1: "extends h h1"
    using unpack_extends [of h l Map.empty] u by simp
  note m = df_merge_extends
  note s = df_set_datetime_extends
  show ?thesis
  proof (cases x)
    case (Inl e)
    with u e1 show ?thesis by (simp add: merge_data_def)
  next
    case v: (Inr v)
    show ?thesis
    proof (cases "local_var v ''df_it''")
      case (Inl e)
      with u v e1 show ?thesis by (simp add: merge_data_def)
    next
      case it: (Inr pit)
      show ?thesis
      proof (cases "local_var v ''df_ic''")
        case (Inl e)
        with u v it e1 show ?thesis by (simp add: merge_data_def)
      next
        case ic: (Inr pic)
        obtain res2 h2 where m1: "df_merge lib h1 pit pic ''item_category_id'' = (res2, h2)"
          by (cases "df_merge lib h1 pit pic ''item_category_id''")
        from m [OF m1 e1] have e2: "extends h h2" by simp
        show ?thesis
        proof (cases res2)
          case (Inl e)
          with u v it ic m1 e2 show ?thesis by (simp add: merge_data_def)
        next
          case df1: (Inr df1)
          show ?thesis
          proof (cases "local_var v ''df_sl''")
            case (Inl e)
            with u v it ic m1 df1 e2 show ?thesis by (simp add: merge_data_def)
          next
            case sl: (Inr psl)
            obtain res3 h3 where m2: "df_merge lib h2 psl df1 ''item_id'' = (res3, h3)"
              by (cases "df_merge lib h2 psl df1 ''item_id''")
            from m [OF m2 e2] have e3: "extends h h3" and p3: "\<forall>p. res3 = Inr p \<longrightarrow> length h \<le> p"
              by simp_all
            show ?thesis
            proof (cases res3)
              case (Inl e)
              with u v it ic m1 df1 sl m2 e3 show ?thesis by (simp add: merge_data_def)
            next
              case df2: (Inr df2)
              with p3 have le: "length h \<le> df2" by simp
              obtain res4 h4 where m3: "df_set_datetime lib h3 df2 ''date'' = (res4, h4)"
                by (cases "df_set_datetime lib h3 df2 ''date''")
              from s [OF m3 e3 le] have e4: "extends h h4" .
              show ?thesis
                using u v it ic m1 df1 sl m2 df2 m3 e4
                by (cases res4) (simp_all add: merge_data_def)
            qed
          qed
        qed
      qed
    qed
  qed
qed

lemma merge_frames_Inr:
  assumes "merge_frames lib (Some SL) (Some IT) (Some IC) = Inr out"
  shows "\<exists>J M. merge lib IT IC ''item_category_id'' = Inr J \<and> merge lib SL J ''item_id'' = Inr M
            \<and> set_datetime lib ''date'' M = Inr out"
  using assms by (auto simp: merge_frames_def split: sum.splits)

subsection \<open>Duplicates\<close>

lemma keep_first_set: "set (keep_first seen rs) = set rs - set seen"
  by (induction rs arbitrary: seen) auto

lemma keep_first_distinct: "distinct (keep_first seen rs)"
  by (induction rs arbitrary: seen) (auto simp: keep_first_set)

lemma drop_duplicates_columns: "columns (drop_duplicates t) = columns t"
  by (simp add: drop_duplicates_def)

lemma drop_duplicates_rows:
  "distinct (rows (drop_duplicates t)) \<and> set (rows (drop_duplicates t)) = set (rows t)"
  by (simp add: drop_duplicates_def keep_first_set keep_first_distinct)

subsection \<open>Labels\<close>

lemma label_pos_Inr:
  assumes "label_pos k cs = Inr i"
  shows "i < length cs \<and> cs ! i = k \<and> (\<forall>j < length cs. cs ! j = k \<longrightarrow> j = i)"
proof -
  let ?ps = "filter (\<lambda>i. cs ! i = k) [0..<length cs]"
  from assms have ps: "?ps = [i]"
    by (simp add: label_pos_def split: list.splits)
  then have "set ?ps = {i}"
    by simp
  then have "\<And>j. (j < length cs \<and> cs ! j = k) = (j = i)"
    by auto
  then show ?thesis by blast
qed

lemma plain_no_suffix: "plain_label k \<Longrightarrow> c @ ''_x'' \<noteq> k \<and> c @ ''_y'' \<noteq> k"
  by (auto simp: plain_label_def)

lemma plain_item_id: "plain_label ''item_id''"
  by (simp add: plain_label_def)

lemma plain_date: "plain_label ''date''"
  by (simp add: plain_label_def)

lemma suffix_lengths [simp]:
  "length (suffix_left ls rs) = length ls" "length (suffix_right ls rs) = length rs"
  by (simp_all add: suffix_left_def suffix_right_def)

lemma suffix_pos:
  assumes l: "label_pos k ls = Inr p"
    and m: "label_pos k (suffix_left ls rs @ suffix_right ls rs) = Inr p'"
    and k: "plain_label k"
  shows "p' = p"
proof -
  let ?cs = "suffix_left ls rs @ suffix_right ls rs"
  from label_pos_Inr [OF l] have p: "p < length ls" "ls ! p = k" by simp_all
  from label_pos_Inr [OF m] have p': "p' < length ?cs" "?cs ! p' = k"
    and u: "\<forall>j < length ?cs. ?cs ! j = k \<longrightarrow> j = p'" by simp_all
  have kl: "k \<in> set ls" using p by auto
  show ?thesis
  proof (cases "k \<in> set rs")
    case False
    then have "?cs ! p = k"
      using p by (simp add: nth_append suffix_left_def)
    moreover have "p < length ?cs"
      using p by simp
    ultimately have "p = p'"
      using u by blast
    then show ?thesis by simp
  next
    case krs: True
    show ?thesis
    proof (cases "p' < length ls")
      case True
      then have e: "?cs ! p' = (if ls ! p' \<in> set rs then ls ! p' @ ''_x'' else ls ! p')"
        by (simp add: nth_append suffix_left_def)
      show ?thesis
      proof (cases "ls ! p' \<in> set rs")
        case True
        with e p'(2) have "ls ! p' @ ''_x'' = k" by simp
        with plain_no_suffix [OF k, of "ls ! p'"] show ?thesis by simp
      next
        case False
        with e p'(2) have "ls ! p' = k" by simp
        with False krs show ?thesis by simp
      qed
    next
      case False
      let ?q = "p' - length ls"
      from False p'(1) have q: "?q < length rs" by simp
      with False have e: "?cs ! p' = (if rs ! ?q \<in> set ls then rs ! ?q @ ''_y'' else rs ! ?q)"
        by (simp add: nth_append suffix_right_def)
      show ?thesis
      proof (cases "rs ! ?q \<in> set ls")
        case True
        with e p'(2) have "rs ! ?q @ ''_y'' = k" by simp
        with plain_no_suffix [OF k, of "rs ! ?q"] show ?thesis by simp
      next
        case False
        with e p'(2) have "rs ! ?q = k" by simp
        with False kl show ?thesis by simp
      qed
    qed
  qed
qed

lemma label_pos_examples:
  "label_pos ''item_category_id'' [''item_category_id'', ''name''] = Inr 0"
  "label_pos ''item_category_id'' [''item_id'', ''item_category_id''] = Inr 1"
  "label_pos ''item_id'' [''item_id'', ''item_category_id'', ''name''] = Inr 0"
  "label_pos ''item_id'' [''item_id'', ''date'', ''qty''] = Inr 0"
  by code_simp+

subsection \<open>The conversion of a column\<close>

lemma set_datetime_Inr:
  assumes "set_datetime lib k M = Inr out"
  shows "\<exists>i ds. label_pos k (columns M) = Inr i
            \<and> to_datetime lib (column i M) = Inr ds
            \<and> length ds = length (rows M)
            \<and> columns out = columns M
            \<and> rows out = map2 (\<lambda>r d. r[i := d]) (rows M) ds"
proof -
  from assms obtain i where i: "label_pos k (columns M) = Inr i"
    by (auto simp: set_datetime_def split: sum.splits)
  with assms obtain ds where ds: "to_datetime lib (column i M) = Inr ds"
    by (auto simp: set_datetime_def split: sum.splits)
  from assms i ds have len: "length ds = length (rows M)"
    by (simp add: set_datetime_def split: if_splits)
  with assms i ds have "out = M\<lparr>rows := map2 (\<lambda>r d. r[i := d]) (rows M) ds\<rparr>"
    by (simp add: set_datetime_def)
  with len show ?thesis using i ds by auto
qed

lemma set_datetime_rows: "set_datetime lib k M = Inr out \<Longrightarrow> length (rows out) = length (rows M)"
proof -
  assume "set_datetime lib k M = Inr out"
  from set_datetime_Inr [OF this] obtain i ds where
    "length ds = length (rows M)" "rows out = map2 (\<lambda>r d. r[i := d]) (rows M) ds"
    by blast
  then show ?thesis by simp
qed

subsection \<open>The left join\<close>

lemma join_row_length: "length (join_row i j w rs l) = max 1 (length (matches j (l ! i) rs))"
  by (cases "matches j (l ! i) rs") (simp_all add: join_row_def)

lemma join_row_single:
  "length (matches j (l ! i) rs) \<le> 1 \<Longrightarrow> \<exists>x. join_row i j w rs l = [l @ x]"
  by (cases "matches j (l ! i) rs") (auto simp: join_row_def)

lemma join_row_prefix: "r \<in> set (join_row i j w rs l) \<Longrightarrow> \<exists>x. r = l @ x"
  by (cases "matches j (l ! i) rs") (auto simp: join_row_def)

lemma left_rows_Nil [simp]: "left_rows i j w [] rs = []"
  by (simp add: left_rows_def)

lemma left_rows_Cons: "left_rows i j w (l # ls) rs = join_row i j w rs l @ left_rows i j w ls rs"
  by (simp add: left_rows_def)

lemma left_rows_length_ge: "length ls \<le> length (left_rows i j w ls rs)"
proof (induction ls)
  case Nil
  then show ?case by simp
next
  case (Cons l ls)
  have "1 \<le> length (join_row i j w rs l)"
    by (simp add: join_row_length)
  with Cons show ?case
    by (simp add: left_rows_Cons)
qed

lemma left_rows_length_eq:
  "\<forall>l\<in>set ls. length (matches j (l ! i) rs) \<le> 1 \<Longrightarrow> length (left_rows i j w ls rs) = length ls"
proof (induction ls)
  case Nil
  then show ?case by simp
next
  case (Cons l ls)
  from Cons.prems have "length (matches j (l ! i) rs) \<le> 1" by simp
  then have "length (join_row i j w rs l) = 1"
    by (simp add: join_row_length)
  with Cons show ?case
    by (simp add: left_rows_Cons)
qed

lemma left_rows_prefix: "r \<in> set (left_rows i j w ls rs) \<Longrightarrow> \<exists>l\<in>set ls. \<exists>x. r = l @ x"
proof (induction ls)
  case Nil
  then show ?case by simp
next
  case (Cons l ls)
  from Cons.prems have "r \<in> set (join_row i j w rs l) \<or> r \<in> set (left_rows i j w ls rs)"
    by (simp add: left_rows_Cons)
  then show ?case
  proof
    assume "r \<in> set (join_row i j w rs l)"
    from join_row_prefix [OF this] show ?thesis by simp
  next
    assume "r \<in> set (left_rows i j w ls rs)"
    from Cons.IH [OF this] show ?thesis by auto
  qed
qed

lemma left_rows_column:
  assumes "\<forall>l\<in>set ls. length (matches j (l ! i) rs) \<le> 1"
    and "\<forall>l\<in>set ls. p < length l"
  shows "map (\<lambda>r. r ! p) (left_rows i j w ls rs) = map (\<lambda>l. l ! p) ls"
  using assms
proof (induction ls)
  case Nil
  then show ?case by simp
next
  case (Cons l ls)
  from Cons.prems(1) have "length (matches j (l ! i) rs) \<le> 1" by simp
  from join_row_single [OF this] obtain x where x: "join_row i j w rs l = [l @ x]" by blast
  from Cons.prems(2) have "p < length l" by simp
  then have "(l @ x) ! p = l ! p" by (simp add: nth_append)
  with x Cons show ?case
    by (simp add: left_rows_Cons)
qed

lemma matches_distinct: "distinct (map (\<lambda>r. r ! j) rs) \<Longrightarrow> length (matches j key rs) \<le> 1"
proof (induction rs)
  case Nil
  then show ?case by (simp add: matches_def)
next
  case (Cons r rs)
  show ?case
  proof (cases "r ! j = key")
    case True
    with Cons.prems have "key \<notin> (\<lambda>r. r ! j) ` set rs" by auto
    then have "filter (\<lambda>r. r ! j = key) rs = []"
      by (auto simp: filter_empty_conv)
    with True show ?thesis by (simp add: matches_def)
  next
    case False
    with Cons show ?thesis by (simp add: matches_def)
  qed
qed

lemma join_row_count: "length (join_row i j w rs l) = max 1 (match_count j (l ! i) rs)"
  by (cases "filter (\<lambda>r. r ! j = l ! i) rs") (simp_all add: join_row_def matches_def match_count_def)

lemma left_rows_count:
  "length (left_rows i j w ls rs) = sum_list (map (\<lambda>l. max 1 (match_count j (l ! i) rs)) ls)"
  by (induction ls) (simp_all add: left_rows_Cons join_row_count)

lemma join_row_take:
  "length l = n \<Longrightarrow>
   map (take n) (join_row i j w rs l) = replicate (max 1 (match_count j (l ! i) rs)) l"
proof -
  assume n: "length l = n"
  show ?thesis
  proof (cases "filter (\<lambda>r. r ! j = l ! i) rs")
    case Nil
    with n show ?thesis
      by (simp add: join_row_def matches_def match_count_def)
  next
    case (Cons m ms)
    have "map (take n) (map (\<lambda>r. l @ drop_nth j r) (m # ms)) = map (\<lambda>r. l) (m # ms)"
      using n by simp
    also have "\<dots> = replicate (length (m # ms)) l"
      by (simp only: map_replicate_const)
    finally show ?thesis using Cons
      by (simp add: join_row_def matches_def match_count_def)
  qed
qed

lemma left_rows_take:
  "\<forall>l\<in>set ls. length l = n \<Longrightarrow>
   map (take n) (left_rows i j w ls rs)
     = concat (map (\<lambda>l. replicate (max 1 (match_count j (l ! i) rs)) l) ls)"
proof (induction ls)
  case Nil
  then show ?case by simp
next
  case (Cons l ls)
  from Cons.prems have "length l = n" by simp
  from join_row_take [OF this] Cons show ?case
    by (simp add: left_rows_Cons)
qed

lemma join_row_mem:
  "row \<in> set (join_row i j w rs l) \<longleftrightarrow>
     (\<exists>r\<in>set rs. r ! j = l ! i \<and> row = l @ drop_nth j r)
   \<or> ((\<forall>r\<in>set rs. r ! j \<noteq> l ! i) \<and> row = l @ replicate w NaN)"
proof (cases "filter (\<lambda>r. r ! j = l ! i) rs")
  case Nil
  then have none: "\<forall>r\<in>set rs. r ! j \<noteq> l ! i"
    by (simp add: filter_empty_conv)
  from Nil have "join_row i j w rs l = [l @ replicate w NaN]"
    by (simp add: join_row_def matches_def)
  with none show ?thesis by auto
next
  case (Cons m ms)
  then have jr: "join_row i j w rs l = map (\<lambda>r. l @ drop_nth j r) (filter (\<lambda>r. r ! j = l ! i) rs)"
    by (simp add: join_row_def matches_def)
  have "m \<in> set (filter (\<lambda>r. r ! j = l ! i) rs)"
    using Cons by simp
  then have some: "\<exists>r\<in>set rs. r ! j = l ! i" by auto
  show ?thesis
  proof
    assume "row \<in> set (join_row i j w rs l)"
    with jr show "(\<exists>r\<in>set rs. r ! j = l ! i \<and> row = l @ drop_nth j r)
        \<or> ((\<forall>r\<in>set rs. r ! j \<noteq> l ! i) \<and> row = l @ replicate w NaN)"
      by auto
  next
    assume "(\<exists>r\<in>set rs. r ! j = l ! i \<and> row = l @ drop_nth j r)
        \<or> ((\<forall>r\<in>set rs. r ! j \<noteq> l ! i) \<and> row = l @ replicate w NaN)"
    with some have "\<exists>r\<in>set rs. r ! j = l ! i \<and> row = l @ drop_nth j r" by blast
    with jr show "row \<in> set (join_row i j w rs l)" by auto
  qed
qed

lemma left_rows_mem:
  "row \<in> set (left_rows i j w ls rs) \<longleftrightarrow> (\<exists>l\<in>set ls. row \<in> set (join_row i j w rs l))"
  by (simp add: left_rows_def)

lemma merge_Inr:
  assumes "merge lib L R k = Inr M"
  shows "\<exists>i j. label_pos k (columns R) = Inr j \<and> label_pos k (columns L) = Inr i
           \<and> key_dtypes_ok (column i L) (column j R)
           \<and> rows M = left_rows i j (length (columns R) - 1) (rows L) (rows R)
           \<and> (rows L \<noteq> [] \<longrightarrow>
                 columns M = suffix_left (columns L) (drop_nth j (columns R))
                             @ suffix_right (columns L) (drop_nth j (columns R)))"
proof -
  from assms obtain j where j: "label_pos k (columns R) = Inr j"
    by (auto simp: merge_def split: sum.splits)
  with assms obtain i where i: "label_pos k (columns L) = Inr i"
    by (auto simp: merge_def split: sum.splits)
  from assms i j have ok: "key_dtypes_ok (column i L) (column j R)"
    by (simp add: merge_def split: if_splits)
  obtain ls rs where lr: "merge_labels lib L R i j = (ls, rs)"
    by (cases "merge_labels lib L R i j")
  from assms i j ok lr have
    M: "M = \<lparr>columns = suffix_left ls rs @ suffix_right ls rs,
            rows = left_rows i j (length (columns R) - 1) (rows L) (rows R)\<rparr>"
    by (simp add: merge_def split: if_splits)
  have "rows L \<noteq> [] \<longrightarrow> ls = columns L \<and> rs = drop_nth j (columns R)"
    using lr by (auto simp: merge_labels_def split: if_splits)
  with M i j ok show ?thesis by simp
qed

lemma merge_columns:
  assumes "merge lib L R k = Inr M"
  shows "\<exists>i j. label_pos k (columns R) = Inr j \<and> label_pos k (columns L) = Inr i
           \<and> columns M = (case merge_labels lib L R i j of
                            (ls, rs) \<Rightarrow> suffix_left ls rs @ suffix_right ls rs)"
proof -
  from assms obtain j where j: "label_pos k (columns R) = Inr j"
    by (auto simp: merge_def split: sum.splits)
  with assms obtain i where i: "label_pos k (columns L) = Inr i"
    by (auto simp: merge_def split: sum.splits)
  obtain ls rs where lr: "merge_labels lib L R i j = (ls, rs)"
    by (cases "merge_labels lib L R i j")
  from assms i j lr have "columns M = suffix_left ls rs @ suffix_right ls rs"
    by (auto simp: merge_def split: if_splits)
  with i j lr show ?thesis by simp
qed

lemma merge_columns_length:
  assumes "merge lib L R k = Inr M"
  shows "length (columns M) = length (columns L) + length (columns R) - 1"
proof -
  from merge_columns [OF assms] obtain i j where
    j: "label_pos k (columns R) = Inr j" and
    i: "label_pos k (columns L) = Inr i" and
    c: "columns M = (case merge_labels lib L R i j of
                       (ls, rs) \<Rightarrow> suffix_left ls rs @ suffix_right ls rs)"
    by blast
  from label_pos_Inr [OF i] have "i < length (columns L)" by simp
  moreover from label_pos_Inr [OF j] have "j < length (columns R)" by simp
  ultimately show ?thesis
    unfolding c by (simp add: merge_labels_def drop_nth_def)
qed

lemma merge_rows_count:
  assumes m: "merge lib L R k = Inr M"
    and i: "label_pos k (columns L) = Inr i"
    and j: "label_pos k (columns R) = Inr j"
  shows "length (rows M) = sum_list (map (\<lambda>l. max 1 (match_count j (l ! i) (rows R))) (rows L))"
proof -
  from merge_Inr [OF m] i j
  have "rows M = left_rows i j (length (columns R) - 1) (rows L) (rows R)" by auto
  then show ?thesis by (simp add: left_rows_count)
qed

lemma merge_rows_ge: "merge lib L R k = Inr M \<Longrightarrow> length (rows L) \<le> length (rows M)"
proof -
  assume m: "merge lib L R k = Inr M"
  from merge_Inr [OF m] show ?thesis
    by (auto simp: left_rows_length_ge)
qed

lemma merge_rows_eq:
  assumes m: "merge lib L R k = Inr M" and u: "unique_key k R"
  shows "length (rows M) = length (rows L)"
proof -
  from merge_Inr [OF m] obtain i j where
    j: "label_pos k (columns R) = Inr j" and
    r: "rows M = left_rows i j (length (columns R) - 1) (rows L) (rows R)"
    by auto
  from u j have "distinct (map (\<lambda>r. r ! j) (rows R))"
    by (simp add: unique_key_def)
  then have "\<forall>l\<in>set (rows L). length (matches j (l ! i) (rows R)) \<le> 1"
    using matches_distinct by blast
  from left_rows_length_eq [OF this] r show ?thesis by simp
qed

lemma merge_unique_key:
  assumes m: "merge lib L R k = Inr M"
    and uR: "unique_key k R"
    and uL: "unique_key k2 L"
    and rect: "rectangular L"
    and plain: "plain_label k2"
    and p': "label_pos k2 (columns M) = Inr p'"
  shows "unique_key k2 M"
proof (cases "rows L = []")
  case True
  with merge_Inr [OF m] have "rows M = []" by auto
  with p' show ?thesis by (simp add: unique_key_def)
next
  case False
  from merge_Inr [OF m] False obtain i j where
    j: "label_pos k (columns R) = Inr j" and
    c: "columns M = suffix_left (columns L) (drop_nth j (columns R))
                    @ suffix_right (columns L) (drop_nth j (columns R))" and
    r: "rows M = left_rows i j (length (columns R) - 1) (rows L) (rows R)"
    by auto
  from uL obtain p where p: "label_pos k2 (columns L) = Inr p"
    and d: "distinct (map (\<lambda>r. r ! p) (rows L))"
    by (auto simp: unique_key_def split: sum.splits)
  from suffix_pos [OF p p' [unfolded c] plain] have pp: "p' = p" .
  from uR j have "distinct (map (\<lambda>r. r ! j) (rows R))"
    by (simp add: unique_key_def)
  then have one: "\<forall>l\<in>set (rows L). length (matches j (l ! i) (rows R)) \<le> 1"
    using matches_distinct by blast
  from label_pos_Inr [OF p] rect have "\<forall>l\<in>set (rows L). p < length l"
    by (simp add: rectangular_def list_all_iff)
  from left_rows_column [OF one this] r
  have "map (\<lambda>r. r ! p) (rows M) = map (\<lambda>l. l ! p) (rows L)" by simp
  with d p' pp show ?thesis
    by (simp add: unique_key_def)
qed

lemma merge_left_join:
  assumes m: "merge lib L R k = Inr M" and rect: "rectangular L"
  shows "left_join_on k L R M"
proof -
  from merge_Inr [OF m] obtain i j where
    j: "label_pos k (columns R) = Inr j" and
    i: "label_pos k (columns L) = Inr i" and
    r: "rows M = left_rows i j (length (columns R) - 1) (rows L) (rows R)"
    by auto
  from rect have len: "\<forall>l\<in>set (rows L). length l = length (columns L)"
    by (simp add: rectangular_def list_all_iff)
  have a: "\<forall>row\<in>set (rows M). \<exists>l\<in>set (rows L).
             (\<exists>r\<in>set (rows R). r ! j = l ! i \<and> row = l @ drop_nth j r)
           \<or> ((\<forall>r\<in>set (rows R). r ! j \<noteq> l ! i)
               \<and> row = l @ replicate (length (columns R) - 1) NaN)"
  proof
    fix row
    assume "row \<in> set (rows M)"
    then have "\<exists>l\<in>set (rows L). row \<in> set (join_row i j (length (columns R) - 1) (rows R) l)"
      unfolding r left_rows_mem .
    then show "\<exists>l\<in>set (rows L).
             (\<exists>r\<in>set (rows R). r ! j = l ! i \<and> row = l @ drop_nth j r)
           \<or> ((\<forall>r\<in>set (rows R). r ! j \<noteq> l ! i)
               \<and> row = l @ replicate (length (columns R) - 1) NaN)"
      unfolding join_row_mem .
  qed
  have b: "\<forall>l\<in>set (rows L). \<forall>r\<in>set (rows R).
             r ! j = l ! i \<longrightarrow> l @ drop_nth j r \<in> set (rows M)"
    unfolding r left_rows_mem join_row_mem by blast
  have c: "map (take (length (columns L))) (rows M)
             = concat (map (\<lambda>l. replicate (max 1 (match_count j (l ! i) (rows R))) l) (rows L))"
    unfolding r by (rule left_rows_take [OF len])
  from a b c merge_columns_length [OF m] show ?thesis
    by (simp add: left_join_on_def i j)
qed

lemma well_formed_rectangular: "well_formed t \<Longrightarrow> rectangular t"
  by (simp add: well_formed_def)

lemma merge_rectangular:
  assumes m: "merge lib L R k = Inr M" and rl: "rectangular L" and rr: "rectangular R"
  shows "rectangular M"
proof -
  from merge_Inr [OF m] obtain i j where
    j: "label_pos k (columns R) = Inr j" and
    i: "label_pos k (columns L) = Inr i" and
    r: "rows M = left_rows i j (length (columns R) - 1) (rows L) (rows R)"
    by auto
  from label_pos_Inr [OF j] have jl: "j < length (columns R)" by simp
  from label_pos_Inr [OF i] have il: "i < length (columns L)" by simp
  have "length row = length (columns M)" if row: "row \<in> set (rows M)" for row
  proof -
    from row obtain l where l: "l \<in> set (rows L)"
      and jr: "row \<in> set (join_row i j (length (columns R) - 1) (rows R) l)"
      unfolding r left_rows_mem by blast
    from l rl have ll: "length l = length (columns L)"
      by (simp add: rectangular_def list_all_iff)
    from jr have "(\<exists>r\<in>set (rows R). r ! j = l ! i \<and> row = l @ drop_nth j r)
        \<or> ((\<forall>r\<in>set (rows R). r ! j \<noteq> l ! i) \<and> row = l @ replicate (length (columns R) - 1) NaN)"
      unfolding join_row_mem .
    then have "length row = length (columns L) + length (columns R) - 1"
    proof
      assume "\<exists>r\<in>set (rows R). r ! j = l ! i \<and> row = l @ drop_nth j r"
      then obtain r where rin: "r \<in> set (rows R)" and re: "row = l @ drop_nth j r" by blast
      from rin rr have "length r = length (columns R)"
        by (simp add: rectangular_def list_all_iff)
      with re ll jl il show ?thesis
        by (simp add: drop_nth_def)
    next
      assume "(\<forall>r\<in>set (rows R). r ! j \<noteq> l ! i) \<and> row = l @ replicate (length (columns R) - 1) NaN"
      with ll jl il show ?thesis by simp
    qed
    with merge_columns_length [OF m] show ?thesis by simp
  qed
  then show ?thesis
    by (simp add: rectangular_def list_all_iff)
qed

lemma set_datetime_converted:
  assumes d: "set_datetime lib k M = Inr out" and rect: "rectangular M"
  shows "converted_on lib k M out"
proof -
  from set_datetime_Inr [OF d] obtain i ds where
    i: "label_pos k (columns M) = Inr i" and
    ds: "to_datetime lib (column i M) = Inr ds" and
    len: "length ds = length (rows M)" and
    c: "columns out = columns M" and
    r: "rows out = map2 (\<lambda>r d. r[i := d]) (rows M) ds"
    by blast
  from label_pos_Inr [OF i] have il: "i < length (columns M)" by simp
  have rowlen: "i < length (rows M ! n)" if "n < length (rows M)" for n
  proof -
    from that have "rows M ! n \<in> set (rows M)" by simp
    with rect have "length (rows M ! n) = length (columns M)"
      by (simp add: rectangular_def list_all_iff)
    with il show ?thesis by simp
  qed
  have nth: "rows out ! n = (rows M ! n)[i := ds ! n]" if "n < length (rows M)" for n
    using that len r by simp
  have cell: "rows out ! n ! i = ds ! n" if "n < length (rows M)" for n
    using nth [OF that] rowlen [OF that] by simp
  have lo: "length (rows out) = length (rows M)"
    using len r by simp
  have col: "column i out = ds"
    by (rule nth_equalityI) (simp_all add: column_def lo len cell)
  have upd: "list_all2 (\<lambda>r r'. r' = r[i := r' ! i]) (rows M) (rows out)"
    unfolding list_all2_conv_all_nth using lo nth cell by simp
  from i c ds col upd show ?thesis
    by (simp add: converted_on_def)
qed

lemma merge_items_columns:
  assumes "columns IT = [''item_id'', ''item_category_id'']"
    and "columns IC = [''item_category_id'', ''name'']"
    and "merge lib IT IC ''item_category_id'' = Inr J"
  shows "columns J = [''item_id'', ''item_category_id'', ''name'']"
proof -
  from merge_columns [OF assms(3)]
  have "columns J = (case merge_labels lib IT IC 1 0 of
                       (ls, rs) \<Rightarrow> suffix_left ls rs @ suffix_right ls rs)"
    by (simp add: assms(1,2) label_pos_examples)
  then show ?thesis
    by (simp add: merge_labels_def assms(1,2) drop_nth_def suffix_left_def suffix_right_def)
qed

lemma merge_sales_columns:
  assumes "columns SL = [''item_id'', ''date'', ''qty'']"
    and "columns J = [''item_id'', ''item_category_id'', ''name'']"
    and "merge lib SL J ''item_id'' = Inr M"
  shows "columns M = (if rows SL = [] \<and> empty_left_drops_left_key lib
                      then [''date'', ''qty'', ''item_id'', ''item_category_id'', ''name'']
                      else [''item_id'', ''date'', ''qty'', ''item_category_id'', ''name''])"
proof -
  from merge_columns [OF assms(3)]
  have "columns M = (case merge_labels lib SL J 0 0 of
                       (ls, rs) \<Rightarrow> suffix_left ls rs @ suffix_right ls rs)"
    by (simp add: assms(1,2) label_pos_examples)
  then show ?thesis
    by (simp add: merge_labels_def assms(1,2) drop_nth_def suffix_left_def suffix_right_def)
qed

lemma merge_frames_columns:
  assumes "columns SL = [''item_id'', ''date'', ''qty'']"
    and "columns IT = [''item_id'', ''item_category_id'']"
    and "columns IC = [''item_category_id'', ''name'']"
    and "merge_frames lib (Some SL) (Some IT) (Some IC) = Inr out"
  shows "columns out = (if rows SL = [] \<and> empty_left_drops_left_key lib
                        then [''date'', ''qty'', ''item_id'', ''item_category_id'', ''name'']
                        else [''item_id'', ''date'', ''qty'', ''item_category_id'', ''name''])"
proof -
  from merge_frames_Inr [OF assms(4)] obtain J M where
    j: "merge lib IT IC ''item_category_id'' = Inr J" and
    m: "merge lib SL J ''item_id'' = Inr M" and
    d: "set_datetime lib ''date'' M = Inr out"
    by blast
  from set_datetime_Inr [OF d] have "columns out = columns M" by blast
  with merge_sales_columns [OF assms(1) merge_items_columns [OF assms(2,3) j] m]
  show ?thesis by simp
qed

lemma merge_frames_steps:
  assumes sl: "rectangular SL" and it: "rectangular IT" and ic: "rectangular IC"
  shows "case merge lib IT IC ''item_category_id'' of
           Inl e \<Rightarrow> merge_frames lib (Some SL) (Some IT) (Some IC) = Inl e
         | Inr J \<Rightarrow> left_join_on ''item_category_id'' IT IC J
            \<and> (case merge lib SL J ''item_id'' of
                 Inl e \<Rightarrow> merge_frames lib (Some SL) (Some IT) (Some IC) = Inl e
               | Inr M \<Rightarrow> left_join_on ''item_id'' SL J M
                  \<and> (case set_datetime lib ''date'' M of
                       Inl e \<Rightarrow> merge_frames lib (Some SL) (Some IT) (Some IC) = Inl e
                     | Inr out \<Rightarrow> merge_frames lib (Some SL) (Some IT) (Some IC) = Inr out
                          \<and> converted_on lib ''date'' M out))"
proof (cases "merge lib IT IC ''item_category_id''")
  case (Inl e)
  then show ?thesis by (simp add: merge_frames_def)
next
  case j: (Inr J)
  note lj = merge_left_join [OF j it]
  note rj = merge_rectangular [OF j it ic]
  show ?thesis
  proof (cases "merge lib SL J ''item_id''")
    case (Inl e)
    with j lj show ?thesis by (simp add: merge_frames_def)
  next
    case m: (Inr M)
    note lm = merge_left_join [OF m sl]
    note rm = merge_rectangular [OF m sl rj]
    show ?thesis
    proof (cases "set_datetime lib ''date'' M")
      case (Inl e)
      with j lj m lm show ?thesis by (simp add: merge_frames_def)
    next
      case d: (Inr out)
      note cv = set_datetime_converted [OF d rm]
      with j lj m lm d show ?thesis by (simp add: merge_frames_def)
    qed
  qed
qed

subsection \<open>The exporter, case by case\<close>

lemma to_csv_valid:
  "deref (heap w) p = Inr t \<Longrightarrow>
     to_csv lib w p path index =
       (if writable w path then
          (Inr (), w\<lparr>files := (files w)(path \<mapsto> to_csv_text lib index t),
                     trace := trace w @ [Write path (to_csv_text lib index t)]\<rparr>)
        else (Inl (OSError path), w))"
  by (simp add: to_csv_def)

lemma export_data_gcs_char:
  assumes "deref (heap w) p = Inr t"
  shows "export_data_gcs lib w p d =
     (if \<not> writable w (gcs_path d) then
        (Inl (OSError (gcs_path d)),
         w\<lparr>trace := trace w @ [Print (''Exporting '' @ export_data.filename d @ '' to GCS'')]\<rparr>)
      else if \<not> writable w (local_path d) then
        (Inl (OSError (local_path d)),
         w\<lparr>files := (files w)(gcs_path d \<mapsto> to_csv_text lib False t),
           trace := trace w @ [Print (''Exporting '' @ export_data.filename d @ '' to GCS''),
                               Write (gcs_path d) (to_csv_text lib False t),
                               Print (''Exporting '' @ export_data.filename d @ '' to '' @ local_export_folder d)]\<rparr>)
      else
        (Inr p,
         w\<lparr>files := (files w)(gcs_path d \<mapsto> to_csv_text lib False t,
                              local_path d \<mapsto> to_csv_text lib False t),
           trace := trace w @ [Print (''Exporting '' @ export_data.filename d @ '' to GCS''),
                               Write (gcs_path d) (to_csv_text lib False t),
                               Print (''Exporting '' @ export_data.filename d @ '' to '' @ local_export_folder d),
                               Write (local_path d) (to_csv_text lib False t)]\<rparr>))"
proof -
  define m1 where "m1 = ''Exporting '' @ export_data.filename d @ '' to GCS''"
  define m2 where "m2 = ''Exporting '' @ export_data.filename d @ '' to '' @ local_export_folder d"
  define c where "c = to_csv_text lib False t"
  have s1: "to_csv lib (print w m1) p (gcs_path d) False =
              (if writable w (gcs_path d) then
                 (Inr (), w\<lparr>files := (files w)(gcs_path d \<mapsto> c),
                           trace := trace w @ [Print m1, Write (gcs_path d) c]\<rparr>)
               else (Inl (OSError (gcs_path d)), w\<lparr>trace := trace w @ [Print m1]\<rparr>))"
    using assms by (simp add: to_csv_def print_def c_def)
  have s2: "to_csv lib (print (w\<lparr>files := (files w)(gcs_path d \<mapsto> c),
                                 trace := trace w @ [Print m1, Write (gcs_path d) c]\<rparr>) m2)
                   p (local_path d) False =
              (if writable w (local_path d) then
                 (Inr (), w\<lparr>files := (files w)(gcs_path d \<mapsto> c, local_path d \<mapsto> c),
                           trace := trace w @ [Print m1, Write (gcs_path d) c, Print m2, Write (local_path d) c]\<rparr>)
               else (Inl (OSError (local_path d)),
                     w\<lparr>files := (files w)(gcs_path d \<mapsto> c),
                       trace := trace w @ [Print m1, Write (gcs_path d) c, Print m2]\<rparr>))"
    using assms by (simp add: to_csv_def print_def c_def)
  have "export_data_gcs lib w p d =
     (if \<not> writable w (gcs_path d) then
        (Inl (OSError (gcs_path d)), w\<lparr>trace := trace w @ [Print m1]\<rparr>)
      else if \<not> writable w (local_path d) then
        (Inl (OSError (local_path d)),
         w\<lparr>files := (files w)(gcs_path d \<mapsto> c),
           trace := trace w @ [Print m1, Write (gcs_path d) c, Print m2]\<rparr>)
      else
        (Inr p,
         w\<lparr>files := (files w)(gcs_path d \<mapsto> c, local_path d \<mapsto> c),
           trace := trace w @ [Print m1, Write (gcs_path d) c, Print m2, Write (local_path d) c]\<rparr>))"
    unfolding export_data_gcs_def m1_def [symmetric] m2_def [symmetric]
    by (simp add: s1 s2)
  then show ?thesis
    by (simp only: m1_def m2_def c_def)
qed

subsection \<open>The instance\<close>

lemma ex_valid: "valid_refs [ex_sales_log, ex_items, ex_cats] ex_list"
  by code_simp

lemma ex_frames:
  "frame_of [ex_sales_log, ex_items, ex_cats] ex_list ''df_sl'' = Some ex_sales_log"
  "frame_of [ex_sales_log, ex_items, ex_cats] ex_list ''df_it'' = Some ex_items"
  "frame_of [ex_sales_log, ex_items, ex_cats] ex_list ''df_ic'' = Some ex_cats"
  by (simp_all add: frame_of_def selected_def ex_list_def)

lemma ex_well_formed:
  "well_formed ex_sales_log" "well_formed ex_sales" "well_formed ex_items"
  "well_formed ex_items_dup" "well_formed ex_cats"
  by code_simp+

lemma ex_columns:
  "columns ex_sales_log = [''item_id'', ''date'', ''qty'']
   \<and> columns ex_items = [''item_id'', ''item_category_id'']
   \<and> columns ex_cats = [''item_category_id'', ''name'']"
  by (simp add: ex_sales_log_def ex_items_def ex_cats_def)

lemma ex_log_valid: "valid_refs [ex_sales_log, ex_items_dup, ex_cats] ex_list"
  by code_simp

lemma ex_log_frames:
  "frame_of [ex_sales_log, ex_items_dup, ex_cats] ex_list ''df_sl'' = Some ex_sales_log"
  "frame_of [ex_sales_log, ex_items_dup, ex_cats] ex_list ''df_it'' = Some ex_items_dup"
  "frame_of [ex_sales_log, ex_items_dup, ex_cats] ex_list ''df_ic'' = Some ex_cats"
  by (simp_all add: frame_of_def selected_def ex_list_def)

lemma ex_frames_more:
  "frame_of [ex_sales, ex_items, ex_cats, ex_items_dup] ex_list_more ''df_sl'' = Some ex_sales"
  "frame_of [ex_sales, ex_items, ex_cats, ex_items_dup] ex_list_more ''df_it'' = Some ex_items"
  "frame_of [ex_sales, ex_items, ex_cats, ex_items_dup] ex_list_more ''df_ic'' = Some ex_cats"
  by (simp_all add: frame_of_def selected_def ex_list_more_def)

lemma ex_merge_frames:
  "merge_frames ex_lib (Some ex_sales) (Some ex_items) (Some ex_cats) =
     Inr \<lparr>columns = [''item_id'', ''date'', ''qty'', ''item_category_id'', ''name''],
          rows = [[Num 1, Date ''2013-01-15'', Num 5, Num 10, Str ''a'']]\<rparr>"
  by code_simp

section \<open>Properties of \<^verbatim>\<open>merge_data\<close>\<close>

text \<open>
  C1, as the code has it. Let the three frames be well formed and let \<^verbatim>\<open>merge_data\<close>
  return a frame. Its number of rows is the sum, over the rows of the sales log, of the
  number of rows of the joined items frame \<open>J\<close> (the items merged with the categories on
  \<^verbatim>\<open>item_category_id\<close>) that have the \<^verbatim>\<open>item_id\<close> of the row, counting one for a row
  of the sales log whose \<^verbatim>\<open>item_id\<close> no row of \<open>J\<close> has. So it is at least the number
  of rows of the sales log, and it is that number when no \<^verbatim>\<open>item_id\<close> occurs twice in
  the items frame and no \<^verbatim>\<open>item_category_id\<close> occurs twice in the categories frame.
  Whether the sales log is empty plays no role.
\<close>

theorem merge_data_rows:
  assumes "valid_refs h df_list"
    and "frame_of h df_list ''df_sl'' = Some SL"
    and "frame_of h df_list ''df_it'' = Some IT"
    and "frame_of h df_list ''df_ic'' = Some IC"
    and "well_formed SL" and "well_formed IT" and "well_formed IC"
    and "merged_table lib h df_list = Inr out"
  shows "\<exists>J ps pj. merge lib IT IC ''item_category_id'' = Inr J
     \<and> label_pos ''item_id'' (columns SL) = Inr ps
     \<and> label_pos ''item_id'' (columns J) = Inr pj
     \<and> length (rows out)
         = sum_list (map (\<lambda>s. max 1 (match_count pj (s ! ps) (rows J))) (rows SL))
     \<and> length (rows SL) \<le> length (rows out)
     \<and> (unique_key ''item_id'' IT \<and> unique_key ''item_category_id'' IC
          \<longrightarrow> length (rows out) = length (rows SL))"
proof -
  from merge_data_char [OF assms(1), of lib] assms(2-4,8)
  have "merge_frames lib (Some SL) (Some IT) (Some IC) = Inr out" by simp
  from merge_frames_Inr [OF this] obtain J M where
    j: "merge lib IT IC ''item_category_id'' = Inr J" and
    m: "merge lib SL J ''item_id'' = Inr M" and
    d: "set_datetime lib ''date'' M = Inr out"
    by blast
  from set_datetime_rows [OF d] have len: "length (rows out) = length (rows M)" .
  from merge_Inr [OF m] obtain ps pj where
    pj: "label_pos ''item_id'' (columns J) = Inr pj" and
    ps: "label_pos ''item_id'' (columns SL) = Inr ps"
    by blast
  have cnt: "length (rows out)
         = sum_list (map (\<lambda>s. max 1 (match_count pj (s ! ps) (rows J))) (rows SL))"
    using merge_rows_count [OF m ps pj] len by simp
  have ge: "length (rows SL) \<le> length (rows out)"
    using merge_rows_ge [OF m] len by simp
  have eq: "length (rows out) = length (rows SL)"
    if uit: "unique_key ''item_id'' IT" and uic: "unique_key ''item_category_id'' IC"
  proof -
    from merge_unique_key [OF j uic uit well_formed_rectangular [OF assms(6)] plain_item_id pj]
    have "unique_key ''item_id'' J" .
    from merge_rows_eq [OF m this] len show ?thesis by simp
  qed
  from j ps pj cnt ge eq show ?thesis by blast
qed

theorem merge_data_rows_witness:
  "valid_refs [ex_sales_log, ex_items_dup, ex_cats] ex_list
   \<and> frame_of [ex_sales_log, ex_items_dup, ex_cats] ex_list ''df_sl'' = Some ex_sales_log
   \<and> frame_of [ex_sales_log, ex_items_dup, ex_cats] ex_list ''df_it'' = Some ex_items_dup
   \<and> frame_of [ex_sales_log, ex_items_dup, ex_cats] ex_list ''df_ic'' = Some ex_cats
   \<and> well_formed ex_sales_log \<and> well_formed ex_items_dup \<and> well_formed ex_cats
   \<and> merged_table ex_lib [ex_sales_log, ex_items_dup, ex_cats] ex_list =
        Inr \<lparr>columns = [''item_id'', ''date'', ''qty'', ''item_category_id'', ''name''],
             rows = [[Num 2, Date ''2013-01-15'', Num 5, NaN, NaN],
                     [Num 1, Date ''2013-01-02'', Num 3, Num 10, Str ''a''],
                     [Num 1, Date ''2013-01-02'', Num 3, Num 11, Str ''b''],
                     [Num 7, Date ''2013-01-15'', Num 1, NaN, NaN],
                     [Num 1, Date ''2013-01-15'', Num 4, Num 10, Str ''a''],
                     [Num 1, Date ''2013-01-15'', Num 4, Num 11, Str ''b'']]\<rparr>
   \<and> map (\<lambda>s. max 1 (match_count 0 (s ! 0) [[Num 1, Num 10, Str ''a''], [Num 1, Num 11, Str ''b'' :: string cell]]))
         (rows ex_sales_log) = [1, 2, 1, 2]
   \<and> (6 :: nat) = sum_list (map (\<lambda>s. max 1 (match_count 0 (s ! 0)
          [[Num 1, Num 10, Str ''a''], [Num 1, Num 11, Str ''b'' :: string cell]])) (rows ex_sales_log))"
proof -
  have jn:
    "merge ex_lib ex_items_dup ex_cats ''item_category_id'' =
       Inr \<lparr>columns = [''item_id'', ''item_category_id'', ''name''],
            rows = [[Num 1, Num 10, Str ''a''], [Num 1, Num 11, Str ''b'']]\<rparr>"
    by code_simp
  have mt:
    "merged_table ex_lib [ex_sales_log, ex_items_dup, ex_cats] ex_list =
       Inr \<lparr>columns = [''item_id'', ''date'', ''qty'', ''item_category_id'', ''name''],
            rows = [[Num 2, Date ''2013-01-15'', Num 5, NaN, NaN],
                    [Num 1, Date ''2013-01-02'', Num 3, Num 10, Str ''a''],
                    [Num 1, Date ''2013-01-02'', Num 3, Num 11, Str ''b''],
                    [Num 7, Date ''2013-01-15'', Num 1, NaN, NaN],
                    [Num 1, Date ''2013-01-15'', Num 4, Num 10, Str ''a''],
                    [Num 1, Date ''2013-01-15'', Num 4, Num 11, Str ''b'']]\<rparr>"
    by code_simp
  let ?h = "[ex_sales_log, ex_items_dup, ex_cats]"
  let ?J = "\<lparr>columns = [''item_id'', ''item_category_id'', ''name''],
          rows = [[Num 1, Num 10, Str ''a''], [Num 1, Num 11, Str ''b'' :: string cell]]\<rparr>"
  have p: "label_pos ''item_id'' (columns ex_sales_log) = Inr 0"
    "label_pos ''item_id'' [''item_id'', ''item_category_id'', ''name''] = Inr 0"
    by code_simp+
  have c: "map (\<lambda>s. max 1 (match_count 0 (s ! 0) [[Num 1, Num 10, Str ''a''], [Num 1, Num 11, Str ''b'' :: string cell]]))
         (rows ex_sales_log) = [1, 2, 1, 2]"
    by code_simp
  from merge_data_rows [OF ex_log_valid ex_log_frames ex_well_formed(1,4,5) mt]
  have "(6 :: nat) = sum_list (map (\<lambda>s. max 1 (match_count 0 (s ! 0)
          [[Num 1, Num 10, Str ''a''], [Num 1, Num 11, Str ''b'' :: string cell]])) (rows ex_sales_log))"
    by (simp add: jn p)
  with ex_log_valid ex_log_frames ex_well_formed(1,4,5) mt c show ?thesis
    by (simp only: simp_thms)
qed

text \<open>
  Without the condition on the keys the two counts differ: an item with two rows in the
  items frame gives two rows for each of its sales.
\<close>

theorem merge_data_rows_counterexample:
  "frame_of [ex_sales, ex_items_dup, ex_cats] ex_list ''df_sl'' =
     Some \<lparr>columns = [''item_id'', ''date'', ''qty''], rows = [[Num 1, Str ''15.01.2013'', Num 5]]\<rparr>
   \<and> merged_table ex_lib [ex_sales, ex_items_dup, ex_cats] ex_list =
     Inr \<lparr>columns = [''item_id'', ''date'', ''qty'', ''item_category_id'', ''name''],
          rows = [[Num 1, Date ''2013-01-15'', Num 5, Num 10, Str ''a''],
                  [Num 1, Date ''2013-01-15'', Num 5, Num 11, Str ''b'']]\<rparr>"
  by code_simp

text \<open>
  C2. Let the three names be present and the three frames well formed. What
  \<^verbatim>\<open>merge_data\<close> returns or raises is what these steps give, in this order:
  \<^item> the merge of the items with the categories on \<^verbatim>\<open>item_category_id\<close>; when it raises,
    that is the error, and when it returns, its result \<open>J\<close> is a left join of the items
    to the categories on that column;
  \<^item> the merge of the sales log with \<open>J\<close> on \<^verbatim>\<open>item_id\<close>; when it raises, that is the
    error, and when it returns, its result \<open>M\<close> is a left join of the sales log to \<open>J\<close> on
    that column;
  \<^item> the conversion of the column \<^verbatim>\<open>date\<close> of \<open>M\<close>; when it raises, that is the error,
    and else the frame returned is \<open>M\<close> with the column \<^verbatim>\<open>date\<close> converted.

  And for a sales log with the columns \<^verbatim>\<open>item_id, date, qty\<close>, items with
  \<^verbatim>\<open>item_id, item_category_id\<close> and categories with \<^verbatim>\<open>item_category_id, name\<close>, a
  returned frame has exactly the five columns
  \<^verbatim>\<open>item_id, date, qty, item_category_id, name\<close>, in this order when the sales log has a
  row.
\<close>

theorem merge_data_steps:
  assumes "valid_refs h df_list"
    and "frame_of h df_list ''df_sl'' = Some SL"
    and "frame_of h df_list ''df_it'' = Some IT"
    and "frame_of h df_list ''df_ic'' = Some IC"
    and "well_formed SL" and "well_formed IT" and "well_formed IC"
  shows "(case merge lib IT IC ''item_category_id'' of
            Inl e \<Rightarrow> merged_table lib h df_list = Inl e
          | Inr J \<Rightarrow> left_join_on ''item_category_id'' IT IC J
             \<and> (case merge lib SL J ''item_id'' of
                  Inl e \<Rightarrow> merged_table lib h df_list = Inl e
                | Inr M \<Rightarrow> left_join_on ''item_id'' SL J M
                   \<and> (case set_datetime lib ''date'' M of
                        Inl e \<Rightarrow> merged_table lib h df_list = Inl e
                      | Inr out \<Rightarrow> merged_table lib h df_list = Inr out
                           \<and> converted_on lib ''date'' M out)))
     \<and> (columns SL = [''item_id'', ''date'', ''qty'']
        \<and> columns IT = [''item_id'', ''item_category_id'']
        \<and> columns IC = [''item_category_id'', ''name'']
        \<longrightarrow> (\<forall>out. merged_table lib h df_list = Inr out \<longrightarrow>
               set (columns out) = {''item_id'', ''date'', ''qty'', ''item_category_id'', ''name''}
             \<and> length (columns out) = 5
             \<and> (rows SL \<noteq> [] \<longrightarrow>
                  columns out = [''item_id'', ''date'', ''qty'', ''item_category_id'', ''name''])))"
proof -
  have s: "merged_table lib h df_list = merge_frames lib (Some SL) (Some IT) (Some IC)"
    using merge_data_char [OF assms(1), of lib] assms(2-4) by simp
  note st = merge_frames_steps [OF well_formed_rectangular [OF assms(5)]
      well_formed_rectangular [OF assms(6)] well_formed_rectangular [OF assms(7)], of lib,
      folded s]
  have cols: "set (columns out) = {''item_id'', ''date'', ''qty'', ''item_category_id'', ''name''}
             \<and> length (columns out) = 5
             \<and> (rows SL \<noteq> [] \<longrightarrow>
                  columns out = [''item_id'', ''date'', ''qty'', ''item_category_id'', ''name''])"
    if c: "columns SL = [''item_id'', ''date'', ''qty'']"
      "columns IT = [''item_id'', ''item_category_id'']"
      "columns IC = [''item_category_id'', ''name'']"
      and o: "merged_table lib h df_list = Inr out" for out
  proof -
    from o s have "merge_frames lib (Some SL) (Some IT) (Some IC) = Inr out" by simp
    from merge_frames_columns [OF c this] show ?thesis
      by (cases "rows SL = [] \<and> empty_left_drops_left_key lib") (simp_all add: insert_commute)
  qed
  show ?thesis
  proof (rule conjI [OF st], intro impI allI)
    fix out
    assume a: "columns SL = [''item_id'', ''date'', ''qty'']
        \<and> columns IT = [''item_id'', ''item_category_id'']
        \<and> columns IC = [''item_category_id'', ''name'']"
      and o: "merged_table lib h df_list = Inr out"
    from a have c1: "columns SL = [''item_id'', ''date'', ''qty'']"
      by (rule conjunct1)
    from a have c2: "columns IT = [''item_id'', ''item_category_id'']"
      by (rule conjunct1 [OF conjunct2])
    from a have c3: "columns IC = [''item_category_id'', ''name'']"
      by (rule conjunct2 [OF conjunct2])
    from cols [OF c1 c2 c3 o]
    show "set (columns out) = {''item_id'', ''date'', ''qty'', ''item_category_id'', ''name''}
             \<and> length (columns out) = 5
             \<and> (rows SL \<noteq> [] \<longrightarrow>
                  columns out = [''item_id'', ''date'', ''qty'', ''item_category_id'', ''name''])" .
  qed
qed

theorem merge_data_steps_witness:
  "valid_refs [ex_sales_log, ex_items, ex_cats] ex_list
   \<and> frame_of [ex_sales_log, ex_items, ex_cats] ex_list ''df_sl'' = Some ex_sales_log
   \<and> frame_of [ex_sales_log, ex_items, ex_cats] ex_list ''df_it'' = Some ex_items
   \<and> frame_of [ex_sales_log, ex_items, ex_cats] ex_list ''df_ic'' = Some ex_cats
   \<and> well_formed ex_sales_log \<and> well_formed ex_items \<and> well_formed ex_cats
   \<and> merge ex_lib ex_items ex_cats ''item_category_id'' = Inr ex_item_table
   \<and> merge ex_lib ex_sales_log ex_item_table ''item_id'' = Inr ex_joined
   \<and> set_datetime ex_lib ''date'' ex_joined = Inr ex_merged
   \<and> left_join_on ''item_category_id'' ex_items ex_cats ex_item_table
   \<and> left_join_on ''item_id'' ex_sales_log ex_item_table ex_joined
   \<and> merged_table ex_lib [ex_sales_log, ex_items, ex_cats] ex_list = Inr ex_merged
   \<and> converted_on ex_lib ''date'' ex_joined ex_merged
   \<and> columns ex_merged = [''item_id'', ''date'', ''qty'', ''item_category_id'', ''name'']"
proof -
  have st:
    "merge ex_lib ex_items ex_cats ''item_category_id'' = Inr ex_item_table"
    "merge ex_lib ex_sales_log ex_item_table ''item_id'' = Inr ex_joined"
    "set_datetime ex_lib ''date'' ex_joined = Inr ex_merged"
    by code_simp+
  note s = merge_data_steps [OF ex_valid ex_frames ex_well_formed(1,3,5), of ex_lib]
  from s have
    "case merge ex_lib ex_items ex_cats ''item_category_id'' of
       Inl e \<Rightarrow> merged_table ex_lib [ex_sales_log, ex_items, ex_cats] ex_list = Inl e
     | Inr J \<Rightarrow> left_join_on ''item_category_id'' ex_items ex_cats J
        \<and> (case merge ex_lib ex_sales_log J ''item_id'' of
             Inl e \<Rightarrow> merged_table ex_lib [ex_sales_log, ex_items, ex_cats] ex_list = Inl e
           | Inr M \<Rightarrow> left_join_on ''item_id'' ex_sales_log J M
              \<and> (case set_datetime ex_lib ''date'' M of
                   Inl e \<Rightarrow> merged_table ex_lib [ex_sales_log, ex_items, ex_cats] ex_list = Inl e
                 | Inr out \<Rightarrow> merged_table ex_lib [ex_sales_log, ex_items, ex_cats] ex_list = Inr out
                      \<and> converted_on ex_lib ''date'' M out))"
    by (rule conjunct1)
  then have a: "left_join_on ''item_category_id'' ex_items ex_cats ex_item_table
      \<and> left_join_on ''item_id'' ex_sales_log ex_item_table ex_joined
      \<and> merged_table ex_lib [ex_sales_log, ex_items, ex_cats] ex_list = Inr ex_merged
      \<and> converted_on ex_lib ''date'' ex_joined ex_merged"
    by (simp only: st sum.case)
  then have mt: "merged_table ex_lib [ex_sales_log, ex_items, ex_cats] ex_list = Inr ex_merged"
    by (elim conjE)
  have ne: "rows ex_sales_log \<noteq> []"
    by (simp add: ex_sales_log_def)
  from s have "columns ex_sales_log = [''item_id'', ''date'', ''qty'']
        \<and> columns ex_items = [''item_id'', ''item_category_id'']
        \<and> columns ex_cats = [''item_category_id'', ''name'']
        \<longrightarrow> (\<forall>out. merged_table ex_lib [ex_sales_log, ex_items, ex_cats] ex_list = Inr out \<longrightarrow>
               set (columns out) = {''item_id'', ''date'', ''qty'', ''item_category_id'', ''name''}
             \<and> length (columns out) = 5
             \<and> (rows ex_sales_log \<noteq> [] \<longrightarrow>
                  columns out = [''item_id'', ''date'', ''qty'', ''item_category_id'', ''name'']))"
    by (rule conjunct2)
  from this ex_columns
  have "\<forall>out. merged_table ex_lib [ex_sales_log, ex_items, ex_cats] ex_list = Inr out \<longrightarrow>
               set (columns out) = {''item_id'', ''date'', ''qty'', ''item_category_id'', ''name''}
             \<and> length (columns out) = 5
             \<and> (rows ex_sales_log \<noteq> [] \<longrightarrow>
                  columns out = [''item_id'', ''date'', ''qty'', ''item_category_id'', ''name''])"
    by (rule mp)
  then have "merged_table ex_lib [ex_sales_log, ex_items, ex_cats] ex_list = Inr ex_merged \<longrightarrow>
               set (columns ex_merged) = {''item_id'', ''date'', ''qty'', ''item_category_id'', ''name''}
             \<and> length (columns ex_merged) = 5
             \<and> (rows ex_sales_log \<noteq> [] \<longrightarrow>
                  columns ex_merged = [''item_id'', ''date'', ''qty'', ''item_category_id'', ''name''])"
    by (rule spec)
  from this mt
  have "set (columns ex_merged) = {''item_id'', ''date'', ''qty'', ''item_category_id'', ''name''}
             \<and> length (columns ex_merged) = 5
             \<and> (rows ex_sales_log \<noteq> [] \<longrightarrow>
                  columns ex_merged = [''item_id'', ''date'', ''qty'', ''item_category_id'', ''name''])"
    by (rule mp)
  then have "rows ex_sales_log \<noteq> [] \<longrightarrow>
      columns ex_merged = [''item_id'', ''date'', ''qty'', ''item_category_id'', ''name'']"
    by (elim conjE)
  from this ne
  have c: "columns ex_merged = [''item_id'', ''date'', ''qty'', ''item_category_id'', ''name'']"
    by (rule mp)
  from ex_valid ex_frames ex_well_formed(1,3,5) st a c show ?thesis
    by (simp only: simp_thms)
qed

text \<open>
  C3. When one of the three names is absent, \<^verbatim>\<open>merge_data\<close> raises and returns no frame.
  The error is the unbound variable \<^verbatim>\<open>df_it\<close> when that name is absent, else the unbound
  variable \<^verbatim>\<open>df_ic\<close> when that name is absent, both at the first merge. When only
  \<^verbatim>\<open>df_sl\<close> is absent, the first merge runs on the two frames that are there; for well
  formed frames the error is the unbound variable \<^verbatim>\<open>df_sl\<close> at the second merge
  whenever the first merge returns. A first merge that raises on these two frames, for a
  key column that is absent or of another sort than the other, raises that error, as it
  does with \<^verbatim>\<open>df_sl\<close> present.
\<close>

theorem merge_data_missing_name:
  assumes "valid_refs h df_list"
    and "''df_sl'' \<notin> df_name ` set df_list \<or> ''df_it'' \<notin> df_name ` set df_list
         \<or> ''df_ic'' \<notin> df_name ` set df_list"
  shows "\<exists>e. fst (merge_data lib h df_list) = Inl e
     \<and> (''df_it'' \<notin> df_name ` set df_list \<longrightarrow> e = UnboundLocalError ''df_it'')
     \<and> (''df_it'' \<in> df_name ` set df_list \<and> ''df_ic'' \<notin> df_name ` set df_list
          \<longrightarrow> e = UnboundLocalError ''df_ic'')
     \<and> (\<forall>IT IC. frame_of h df_list ''df_it'' = Some IT \<and> frame_of h df_list ''df_ic'' = Some IC
               \<and> well_formed IT \<and> well_formed IC
          \<longrightarrow> e = (case merge lib IT IC ''item_category_id'' of
                     Inl e' \<Rightarrow> e'
                   | Inr J \<Rightarrow> UnboundLocalError ''df_sl''))"
proof -
  let ?sl = "frame_of h df_list ''df_sl''"
  let ?it = "frame_of h df_list ''df_it''"
  let ?ic = "frame_of h df_list ''df_ic''"
  have none: "frame_of h df_list n = None \<longleftrightarrow> n \<notin> df_name ` set df_list" for n
    by (simp add: frame_of_def selected_None_iff)
  show ?thesis
  proof (cases ?it)
    case None
    then have "merge_frames lib ?sl ?it ?ic = Inl (UnboundLocalError ''df_it'')"
      by (simp add: merge_frames_def)
    from merge_data_fails [OF assms(1) this]
    have f: "fst (merge_data lib h df_list) = Inl (UnboundLocalError ''df_it'')" .
    from None have a: "''df_it'' \<notin> df_name ` set df_list"
      by (simp add: none)
    show ?thesis
      by (rule exI [of _ "UnboundLocalError ''df_it''"]) (simp add: f None a)
  next
    case it: (Some IT)
    then have a: "''df_it'' \<in> df_name ` set df_list"
      using none [of "''df_it''"] by simp
    show ?thesis
    proof (cases ?ic)
      case None
      with it have "merge_frames lib ?sl ?it ?ic = Inl (UnboundLocalError ''df_ic'')"
        by (simp add: merge_frames_def)
      from merge_data_fails [OF assms(1) this]
      have f: "fst (merge_data lib h df_list) = Inl (UnboundLocalError ''df_ic'')" .
      show ?thesis
        by (rule exI [of _ "UnboundLocalError ''df_ic''"]) (simp add: f None a)
    next
      case ic: (Some IC)
      then have b: "''df_ic'' \<in> df_name ` set df_list"
        using none [of "''df_ic''"] by simp
      from assms(2) a b have "?sl = None"
        by (simp add: none)
      let ?e = "case merge lib IT IC ''item_category_id'' of
                  Inl e' \<Rightarrow> e' | Inr J \<Rightarrow> UnboundLocalError ''df_sl''"
      from it ic \<open>?sl = None\<close> have "merge_frames lib ?sl ?it ?ic = Inl ?e"
        by (cases "merge lib IT IC ''item_category_id''") (simp_all add: merge_frames_def)
      from merge_data_fails [OF assms(1) this]
      have f: "fst (merge_data lib h df_list) = Inl ?e" .
      show ?thesis
        by (rule exI [of _ ?e]) (simp add: f it ic a b)
    qed
  qed
qed

theorem merge_data_missing_name_witness:
  "valid_refs [ex_items, ex_cats] [\<lparr>df_name = ''df_it'', df = 0\<rparr>, \<lparr>df_name = ''df_ic'', df = 1\<rparr>]
   \<and> valid_refs [ex_items_text, ex_cats] [\<lparr>df_name = ''df_it'', df = 0\<rparr>, \<lparr>df_name = ''df_ic'', df = 1\<rparr>]
   \<and> well_formed ex_items \<and> well_formed ex_items_text \<and> well_formed ex_cats
   \<and> ''df_sl'' \<notin> df_name ` set [\<lparr>df_name = ''df_it'', df = 0\<rparr>, \<lparr>df_name = ''df_ic'', df = 1\<rparr>]
   \<and> fst (merge_data ex_lib [ex_items, ex_cats]
             [\<lparr>df_name = ''df_it'', df = 0\<rparr>, \<lparr>df_name = ''df_ic'', df = 1\<rparr>])
       = Inl (UnboundLocalError ''df_sl'')
   \<and> fst (merge_data ex_lib [ex_items_text, ex_cats]
             [\<lparr>df_name = ''df_it'', df = 0\<rparr>, \<lparr>df_name = ''df_ic'', df = 1\<rparr>])
       = Inl (ValueError ''item_category_id'')"
proof -
  let ?l = "[\<lparr>df_name = ''df_it'', df = 0\<rparr>, \<lparr>df_name = ''df_ic'', df = 1\<rparr>]"
  have a: "''df_sl'' \<notin> df_name ` set ?l \<or> ''df_it'' \<notin> df_name ` set ?l \<or> ''df_ic'' \<notin> df_name ` set ?l"
    by simp
  have w: "well_formed ex_items" "well_formed ex_items_text" "well_formed ex_cats"
    by code_simp+
  have m: "merge ex_lib ex_items ex_cats ''item_category_id'' =
             Inr \<lparr>columns = [''item_id'', ''item_category_id'', ''name''],
                  rows = [[Num 1, Num 10, Str ''a''], [Num 2, Num 11, Str ''b'']]\<rparr>"
    "merge ex_lib ex_items_text ex_cats ''item_category_id'' = Inl (ValueError ''item_category_id'')"
    by code_simp+
  have r: "fst (merge_data ex_lib [IT, ex_cats] ?l)
             = Inl (case merge ex_lib IT ex_cats ''item_category_id'' of
                      Inl e' \<Rightarrow> e'
                    | Inr J \<Rightarrow> UnboundLocalError ''df_sl'')"
    if wf: "well_formed IT" for IT
  proof -
    have v: "valid_refs [IT, ex_cats] ?l"
      by (simp add: valid_refs_def)
    have f: "frame_of [IT, ex_cats] ?l ''df_it'' = Some IT"
      "frame_of [IT, ex_cats] ?l ''df_ic'' = Some ex_cats"
      by (simp_all add: frame_of_def selected_def)
    from merge_data_missing_name [OF v a, of ex_lib] obtain e where
      all: "fst (merge_data ex_lib [IT, ex_cats] ?l) = Inl e
       \<and> (''df_it'' \<notin> df_name ` set ?l \<longrightarrow> e = UnboundLocalError ''df_it'')
       \<and> (''df_it'' \<in> df_name ` set ?l \<and> ''df_ic'' \<notin> df_name ` set ?l
            \<longrightarrow> e = UnboundLocalError ''df_ic'')
       \<and> (\<forall>IT' IC. frame_of [IT, ex_cats] ?l ''df_it'' = Some IT'
                 \<and> frame_of [IT, ex_cats] ?l ''df_ic'' = Some IC
                 \<and> well_formed IT' \<and> well_formed IC
            \<longrightarrow> e = (case merge ex_lib IT' IC ''item_category_id'' of
                       Inl e' \<Rightarrow> e'
                     | Inr J \<Rightarrow> UnboundLocalError ''df_sl''))" ..
    then have e: "fst (merge_data ex_lib [IT, ex_cats] ?l) = Inl e" ..
    from all have c: "\<forall>IT' IC. frame_of [IT, ex_cats] ?l ''df_it'' = Some IT'
                 \<and> frame_of [IT, ex_cats] ?l ''df_ic'' = Some IC
                 \<and> well_formed IT' \<and> well_formed IC
            \<longrightarrow> e = (case merge ex_lib IT' IC ''item_category_id'' of
                       Inl e' \<Rightarrow> e'
                     | Inr J \<Rightarrow> UnboundLocalError ''df_sl'')"
      by (elim conjE)
    from c f wf w(3) have "e = (case merge ex_lib IT ex_cats ''item_category_id'' of
                       Inl e' \<Rightarrow> e'
                     | Inr J \<Rightarrow> UnboundLocalError ''df_sl'')"
      by simp
    with e show ?thesis by simp
  qed
  have v: "valid_refs [ex_items, ex_cats] ?l" "valid_refs [ex_items_text, ex_cats] ?l"
    by (simp_all add: valid_refs_def)
  from r [OF w(1)] r [OF w(2)] v w show ?thesis
    by (simp add: m)
qed

text \<open>
  C7, as the code has it. Let the three frames be well formed, let the sales log have one
  column \<^verbatim>\<open>date\<close>, at position \<open>di\<close>, and let \<^verbatim>\<open>merge_data\<close> return a frame. Then this
  frame has the labels and the number of rows of the frame \<open>M\<close> that the two merges give,
  and \<^verbatim>\<open>date\<close> is its column \<open>di\<close> when the sales log has a row. Each row of \<open>M\<close> starts
  with the cells of a row of the sales log and has the date of that row at position \<open>di\<close>.
  The column \<open>di\<close> of the frame returned is what \<^verbatim>\<open>to_datetime\<close> returns for the whole
  column \<open>di\<close> of \<open>M\<close>, and each row of the frame returned is the row of \<open>M\<close> with that one
  cell replaced.
\<close>

theorem merge_data_dates:
  assumes "valid_refs h df_list"
    and "frame_of h df_list ''df_sl'' = Some SL"
    and "frame_of h df_list ''df_it'' = Some IT"
    and "frame_of h df_list ''df_ic'' = Some IC"
    and "well_formed SL" and "well_formed IT" and "well_formed IC"
    and di: "label_pos ''date'' (columns SL) = Inr di"
    and "merged_table lib h df_list = Inr out"
  shows "\<exists>J M. merge lib IT IC ''item_category_id'' = Inr J
           \<and> merge lib SL J ''item_id'' = Inr M
           \<and> columns out = columns M
           \<and> length (rows out) = length (rows M)
           \<and> (rows SL \<noteq> [] \<longrightarrow> label_pos ''date'' (columns out) = Inr di)
           \<and> to_datetime lib (column di M) = Inr (column di out)
           \<and> (\<forall>n<length (rows out).
                 (\<exists>l\<in>set (rows SL). take (length l) (rows M ! n) = l
                     \<and> rows M ! n ! di = l ! di)
               \<and> rows out ! n = (rows M ! n)[di := rows out ! n ! di])"
proof -
  note rect = well_formed_rectangular [OF assms(5)]
  from merge_data_char [OF assms(1), of lib] assms(2-4,9)
  have "merge_frames lib (Some SL) (Some IT) (Some IC) = Inr out" by simp
  from merge_frames_Inr [OF this] obtain J M where
    j: "merge lib IT IC ''item_category_id'' = Inr J" and
    m: "merge lib SL J ''item_id'' = Inr M" and
    d: "set_datetime lib ''date'' M = Inr out"
    by blast
  from set_datetime_Inr [OF d] obtain i ds where
    i: "label_pos ''date'' (columns M) = Inr i" and
    ds: "to_datetime lib (column i M) = Inr ds" and
    len: "length ds = length (rows M)" and
    c: "columns out = columns M" and
    r: "rows out = map2 (\<lambda>r d. r[i := d]) (rows M) ds"
    by blast
  from len r have lr: "length (rows out) = length (rows M)" by simp
  from merge_Inr [OF m] obtain a b where
    rm: "rows M = left_rows a b (length (columns J) - 1) (rows SL) (rows J)" and
    cm: "rows SL \<noteq> [] \<longrightarrow> columns M = suffix_left (columns SL) (drop_nth b (columns J))
                       @ suffix_right (columns SL) (drop_nth b (columns J))"
    by blast
  have main: "(rows SL \<noteq> [] \<longrightarrow> label_pos ''date'' (columns out) = Inr di)
           \<and> to_datetime lib (column di M) = Inr (column di out)
           \<and> (\<forall>n<length (rows out).
                 (\<exists>l\<in>set (rows SL). take (length l) (rows M ! n) = l
                     \<and> rows M ! n ! di = l ! di)
               \<and> rows out ! n = (rows M ! n)[di := rows out ! n ! di])"
  proof (cases "rows SL = []")
    case True
    with rm have e: "rows M = []" by simp
    with len have "ds = []" by simp
    with ds e r lr True show ?thesis
      by (simp add: column_def)
  next
    case False
    with cm have cm': "columns M = suffix_left (columns SL) (drop_nth b (columns J))
                       @ suffix_right (columns SL) (drop_nth b (columns J))"
      by simp
    from suffix_pos [OF di i [unfolded cm'] plain_date] have idi: "i = di" .
    from label_pos_Inr [OF di] have dlt: "di < length (columns SL)" by simp
    have pre: "\<exists>l\<in>set (rows SL). take (length l) (rows M ! n) = l
                 \<and> rows M ! n ! di = l ! di \<and> di < length (rows M ! n)"
      if n: "n < length (rows M)" for n
    proof -
      from n have "rows M ! n \<in> set (left_rows a b (length (columns J) - 1) (rows SL) (rows J))"
        using rm by simp
      from left_rows_prefix [OF this] obtain l x where
        l: "l \<in> set (rows SL)" and lx: "rows M ! n = l @ x" by blast
      from l rect have "length l = length (columns SL)"
        by (simp add: rectangular_def list_all_iff)
      with dlt have dl: "di < length l" by simp
      with lx have "rows M ! n ! di = l ! di" "di < length (rows M ! n)"
        "take (length l) (rows M ! n) = l"
        by (simp_all add: nth_append)
      with l show ?thesis by blast
    qed
    have nth: "rows out ! n = (rows M ! n)[di := ds ! n]" if "n < length (rows M)" for n
      using that len r idi by simp
    have cell: "rows out ! n ! di = ds ! n" if n: "n < length (rows M)" for n
    proof -
      from pre [OF n] have "di < length (rows M ! n)" by blast
      with nth [OF n] show ?thesis by simp
    qed
    have col: "column di out = ds"
      by (rule nth_equalityI) (simp_all add: column_def lr len cell)
    have row: "(\<exists>l\<in>set (rows SL). take (length l) (rows M ! n) = l
                     \<and> rows M ! n ! di = l ! di)
               \<and> rows out ! n = (rows M ! n)[di := rows out ! n ! di]"
      if n: "n < length (rows out)" for n
    proof -
      from n lr have nM: "n < length (rows M)" by simp
      from pre [OF nM] have "\<exists>l\<in>set (rows SL). take (length l) (rows M ! n) = l
                     \<and> rows M ! n ! di = l ! di"
        by blast
      moreover from nth [OF nM] cell [OF nM]
      have "rows out ! n = (rows M ! n)[di := rows out ! n ! di]" by simp
      ultimately show ?thesis by (rule conjI)
    qed
    from i c idi have "label_pos ''date'' (columns out) = Inr di" by simp
    moreover from ds idi col have "to_datetime lib (column di M) = Inr (column di out)" by simp
    ultimately show ?thesis using row by simp
  qed
  show ?thesis
    by (rule exI [of _ J], rule exI [of _ M]) (use j m c lr main in simp)
qed

theorem merge_data_dates_witness:
  "valid_refs [ex_sales_log, ex_items, ex_cats] ex_list
   \<and> frame_of [ex_sales_log, ex_items, ex_cats] ex_list ''df_sl'' = Some ex_sales_log
   \<and> frame_of [ex_sales_log, ex_items, ex_cats] ex_list ''df_it'' = Some ex_items
   \<and> frame_of [ex_sales_log, ex_items, ex_cats] ex_list ''df_ic'' = Some ex_cats
   \<and> well_formed ex_sales_log \<and> well_formed ex_items \<and> well_formed ex_cats
   \<and> label_pos ''date'' (columns ex_sales_log) = Inr 1
   \<and> merged_table ex_lib [ex_sales_log, ex_items, ex_cats] ex_list = Inr ex_merged
   \<and> column 1 ex_joined
       = [Str ''15.01.2013'', Str ''02.01.2013'', Str ''15.01.2013'', Str ''15.01.2013'']
   \<and> column 1 ex_merged
       = [Date ''2013-01-15'', Date ''2013-01-02'', Date ''2013-01-15'', Date ''2013-01-15'']
   \<and> to_datetime ex_lib (column 1 ex_joined) = Inr (column 1 ex_merged)
   \<and> (\<exists>l\<in>set (rows ex_sales_log). take (length l) (rows ex_joined ! 1) = l
          \<and> rows ex_joined ! 1 ! 1 = l ! 1)
   \<and> rows ex_merged ! 1 = (rows ex_joined ! 1)[1 := rows ex_merged ! 1 ! 1]"
proof -
  have st:
    "merge ex_lib ex_items ex_cats ''item_category_id'' = Inr ex_item_table"
    "merge ex_lib ex_sales_log ex_item_table ''item_id'' = Inr ex_joined"
    "set_datetime ex_lib ''date'' ex_joined = Inr ex_merged"
    by code_simp+
  have d: "label_pos ''date'' (columns ex_sales_log) = Inr 1"
    by code_simp
  have mt: "merged_table ex_lib [ex_sales_log, ex_items, ex_cats] ex_list = Inr ex_merged"
    by code_simp
  have x: "column 1 ex_joined
       = [Str ''15.01.2013'', Str ''02.01.2013'', Str ''15.01.2013'', Str ''15.01.2013'']"
    "column 1 ex_merged
       = [Date ''2013-01-15'', Date ''2013-01-02'', Date ''2013-01-15'', Date ''2013-01-15'']"
    by code_simp+
  from merge_data_dates [OF ex_valid ex_frames ex_well_formed(1,3,5) d mt]
  obtain J M where
    j: "merge ex_lib ex_items ex_cats ''item_category_id'' = Inr J" and
    m: "merge ex_lib ex_sales_log J ''item_id'' = Inr M" and
    t: "to_datetime ex_lib (column 1 M) = Inr (column 1 ex_merged)" and
    r: "\<forall>n<length (rows ex_merged).
         (\<exists>l\<in>set (rows ex_sales_log). take (length l) (rows M ! n) = l
             \<and> rows M ! n ! 1 = l ! 1)
       \<and> rows ex_merged ! n = (rows M ! n)[1 := rows ex_merged ! n ! 1]"
    by blast
  from j have "J = ex_item_table"
    by (simp only: st sum.inject)
  with m have "M = ex_joined"
    by (simp only: st sum.inject)
  with t have t': "to_datetime ex_lib (column 1 ex_joined) = Inr (column 1 ex_merged)"
    by simp
  from \<open>M = ex_joined\<close> r have
    r': "\<forall>n<length (rows ex_merged).
         (\<exists>l\<in>set (rows ex_sales_log). take (length l) (rows ex_joined ! n) = l
             \<and> rows ex_joined ! n ! 1 = l ! 1)
       \<and> rows ex_merged ! n = (rows ex_joined ! n)[1 := rows ex_merged ! n ! 1]"
    by simp
  from r' have "1 < length (rows ex_merged) \<longrightarrow>
         (\<exists>l\<in>set (rows ex_sales_log). take (length l) (rows ex_joined ! 1) = l
             \<and> rows ex_joined ! 1 ! 1 = l ! 1)
       \<and> rows ex_merged ! 1 = (rows ex_joined ! 1)[1 := rows ex_merged ! 1 ! 1]"
    by (rule spec)
  moreover have "1 < length (rows ex_merged)"
    by (simp add: ex_merged_def)
  ultimately have r1: "(\<exists>l\<in>set (rows ex_sales_log). take (length l) (rows ex_joined ! 1) = l
             \<and> rows ex_joined ! 1 ! 1 = l ! 1)
       \<and> rows ex_merged ! 1 = (rows ex_joined ! 1)[1 := rows ex_merged ! 1 ! 1]"
    by (rule mp)
  from r1 have r1a: "\<exists>l\<in>set (rows ex_sales_log). take (length l) (rows ex_joined ! 1) = l
             \<and> rows ex_joined ! 1 ! 1 = l ! 1"
    by (rule conjunct1)
  from r1 have r1b: "rows ex_merged ! 1 = (rows ex_joined ! 1)[1 := rows ex_merged ! 1 ! 1]"
    by (rule conjunct2)
  show ?thesis
    by (intro conjI) (rule ex_valid ex_frames ex_well_formed d mt x t' r1a r1b)+
qed

text \<open>
  The timestamp of a row is not a function of the text of that row: with a library that
  infers the format from the first value of the column, as pandas 2 does, the same row of
  a sales log, with the text \<^verbatim>\<open>02.01.2013\<close>, comes out as the first of February when it
  is the only row and as the second of January when the column starts with
  \<^verbatim>\<open>15.01.2013\<close>.
\<close>

theorem merge_data_dates_counterexample:
  "rows ex_sales_one ! 0 = [Num 1, Str ''02.01.2013'', Num 3]
   \<and> rows ex_sales_log ! 1 = [Num 1, Str ''02.01.2013'', Num 3]
   \<and> merged_table ex_lib [ex_sales_one, ex_items, ex_cats] ex_list =
        Inr \<lparr>columns = [''item_id'', ''date'', ''qty'', ''item_category_id'', ''name''],
             rows = [[Num 1, Date ''2013-02-01'', Num 3, Num 10, Str ''a'']]\<rparr>
   \<and> merged_table ex_lib [ex_sales_log, ex_items, ex_cats] ex_list =
        Inr \<lparr>columns = [''item_id'', ''date'', ''qty'', ''item_category_id'', ''name''],
             rows = [[Num 2, Date ''2013-01-15'', Num 5, Num 11, Str ''b''],
                     [Num 1, Date ''2013-01-02'', Num 3, Num 10, Str ''a''],
                     [Num 7, Date ''2013-01-15'', Num 1, NaN, NaN],
                     [Num 1, Date ''2013-01-15'', Num 4, Num 10, Str ''a'']]\<rparr>"
  by code_simp

text \<open>
  C9. Entries with another name than the three change nothing: the call on the list
  without them does the same and returns the same. The frames that are merged are those of
  the last entry of each name.
\<close>

theorem merge_data_selection:
  assumes "valid_refs h df_list"
  shows "merge_data lib h (filter (\<lambda>e. expected (df_name e)) df_list) = merge_data lib h df_list
     \<and> merged_table lib h df_list =
         merge_frames lib (frame_of h df_list ''df_sl'') (frame_of h df_list ''df_it'')
           (frame_of h df_list ''df_ic'')"
proof
  show "merge_data lib h (filter (\<lambda>e. expected (df_name e)) df_list) = merge_data lib h df_list"
    by (simp add: merge_data_def unpack_filter)
  show "merged_table lib h df_list =
         merge_frames lib (frame_of h df_list ''df_sl'') (frame_of h df_list ''df_it'')
           (frame_of h df_list ''df_ic'')"
    using assms by (rule merge_data_char)
qed

theorem merge_data_selection_witness:
  "valid_refs [ex_sales, ex_items, ex_cats, ex_items_dup] ex_list_more
   \<and> filter (\<lambda>e. expected (df_name e)) ex_list_more =
        [\<lparr>df_name = ''df_it'', df = 3\<rparr>, \<lparr>df_name = ''df_sl'', df = 0\<rparr>,
         \<lparr>df_name = ''df_it'', df = 1\<rparr>, \<lparr>df_name = ''df_ic'', df = 2\<rparr>]
   \<and> frame_of [ex_sales, ex_items, ex_cats, ex_items_dup] ex_list_more ''df_it'' = Some ex_items
   \<and> merged_table ex_lib [ex_sales, ex_items, ex_cats, ex_items_dup] ex_list_more =
        Inr \<lparr>columns = [''item_id'', ''date'', ''qty'', ''item_category_id'', ''name''],
             rows = [[Num 1, Date ''2013-01-15'', Num 5, Num 10, Str ''a'']]\<rparr>"
proof -
  have v: "valid_refs [ex_sales, ex_items, ex_cats, ex_items_dup] ex_list_more"
    by (simp add: valid_refs_def ex_list_more_def)
  have f: "filter (\<lambda>e. expected (df_name e)) ex_list_more =
        [\<lparr>df_name = ''df_it'', df = 3\<rparr>, \<lparr>df_name = ''df_sl'', df = 0\<rparr>,
         \<lparr>df_name = ''df_it'', df = 1\<rparr>, \<lparr>df_name = ''df_ic'', df = 2\<rparr>]"
    by (simp add: ex_list_more_def expected_def)
  from merge_data_selection [OF v, of ex_lib] v f show ?thesis
    by (simp add: ex_frames_more ex_merge_frames)
qed

text \<open>
  C10. Whatever \<^verbatim>\<open>merge_data\<close> does, and whether it returns or raises, every object that
  existed before the call, so every frame of \<^verbatim>\<open>df_list\<close>, is afterwards what it was
  before: the function works on copies, and the one assignment it makes is to a frame it
  has built itself.
\<close>

theorem merge_data_leaves_inputs:
  "r < length h \<Longrightarrow> deref (snd (merge_data lib h df_list)) r = deref h r"
proof -
  assume r: "r < length h"
  have e: "extends h (snd (merge_data lib h df_list))"
    by (rule merge_data_extends)
  then have "length h \<le> length (snd (merge_data lib h df_list))"
    by (simp add: extends_def)
  with r extends_nth [OF e r] show ?thesis
    by (simp add: deref_def)
qed

theorem merge_data_leaves_inputs_witness:
  "(0::nat) < length [ex_sales, ex_items, ex_cats]
   \<and> deref (snd (merge_data ex_lib [ex_sales, ex_items, ex_cats] ex_list)) 0 = Inr ex_sales"
  using merge_data_leaves_inputs [of 0 "[ex_sales, ex_items, ex_cats]" ex_lib ex_list]
  by (simp add: deref_def)

section \<open>Properties of the importer\<close>

text \<open>
  C4. When the object at \<^verbatim>\<open>gcs://<bucket_name>/<import_data_folder>/<filename>\<close> exists
  and is a well-formed CSV text, \<^verbatim>\<open>import_gcs_data\<close> returns the dict of the descriptor's
  \<^verbatim>\<open>df_name\<close> and a frame with the labels of the frame read from that object, in which
  no row occurs twice and whose rows are exactly the rows of the frame read.
\<close>

theorem import_gcs_data_dedup:
  assumes "files w (''gcs://'' @ import_data.bucket_name d @ ''/'' @ import_data_folder d @ ''/''
                     @ import_data.filename d) = Some s"
    and "read_csv_text lib s = Some t"
  shows "\<exists>q t'. fst (import_gcs_data lib w d) = Inr \<lparr>df_name = import_data.df_name d, df = q\<rparr>
           \<and> deref (heap (snd (import_gcs_data lib w d))) q = Inr t'
           \<and> columns t' = columns t
           \<and> distinct (rows t')
           \<and> set (rows t') = set (rows t)"
proof -
  have r: "read_csv lib w (import_uri d) = Inr t"
    using assms by (simp add: read_csv_def import_uri_def)
  let ?q = "Suc (length (heap w))"
  have "import_gcs_data lib w d =
          (Inr \<lparr>df_name = import_data.df_name d, df = ?q\<rparr>,
           w\<lparr>heap := heap w @ [t, drop_duplicates t]\<rparr>)"
    by (simp add: import_gcs_data_def r alloc_def)
  moreover have "deref (heap w @ [t, drop_duplicates t]) ?q = Inr (drop_duplicates t)"
    by (simp add: deref_def nth_append)
  ultimately show ?thesis
    using drop_duplicates_rows [of t] drop_duplicates_columns [of t] by simp
qed

theorem import_gcs_data_dedup_witness:
  "files ex_world ''gcs://bucket/raw/sales.csv'' = Some ''item_id,qty\<newline>1,5\<newline>1,5\<newline>2,7\<newline>''
   \<and> read_csv_text ex_lib ''item_id,qty\<newline>1,5\<newline>1,5\<newline>2,7\<newline>'' = Some ex_raw
   \<and> (\<exists>q t'. fst (import_gcs_data ex_lib ex_world ex_import) = Inr \<lparr>df_name = ''df_sl'', df = q\<rparr>
           \<and> deref (heap (snd (import_gcs_data ex_lib ex_world ex_import))) q = Inr t'
           \<and> columns t' = columns ex_raw
           \<and> distinct (rows t')
           \<and> set (rows t') = set (rows ex_raw))"
proof -
  have f: "files ex_world (''gcs://'' @ import_data.bucket_name ex_import @ ''/'' @ import_data_folder ex_import @ ''/''
                     @ import_data.filename ex_import) = Some ''item_id,qty\<newline>1,5\<newline>1,5\<newline>2,7\<newline>''"
    by (simp add: ex_world_def ex_import_def)
  have r: "read_csv_text ex_lib ''item_id,qty\<newline>1,5\<newline>1,5\<newline>2,7\<newline>'' = Some ex_raw"
    by (simp add: ex_lib_def)
  have n: "import_data.df_name ex_import = ''df_sl''"
    by (simp add: ex_import_def)
  from import_gcs_data_dedup [OF f r] show ?thesis
    unfolding n using r by (simp add: ex_world_def)
qed

section \<open>Properties of the exporter\<close>

text \<open>
  C5. \<^verbatim>\<open>export_data_gcs\<close> leaves every object as it was, whatever happens; what it prints
  and writes is an initial part of: the first message, the write to the bucket, the second
  message, the local write; and when it returns, it returns the reference it was given,
  after both writes, the one to the bucket first.
\<close>

theorem export_data_gcs_pass_through:
  assumes "deref (heap w) p = Inr t"
    and "export_data_gcs lib w p d = (res, w')"
  shows "heap w' = heap w
     \<and> (\<exists>k. trace w' = trace w @ take k
            [Print (''Exporting '' @ export_data.filename d @ '' to GCS''),
             Write (gcs_path d) (to_csv_text lib False t),
             Print (''Exporting '' @ export_data.filename d @ '' to '' @ local_export_folder d),
             Write (local_path d) (to_csv_text lib False t)])
     \<and> (\<forall>r. res = Inr r \<longrightarrow>
            r = p \<and> trace w' = trace w @
              [Print (''Exporting '' @ export_data.filename d @ '' to GCS''),
               Write (gcs_path d) (to_csv_text lib False t),
               Print (''Exporting '' @ export_data.filename d @ '' to '' @ local_export_folder d),
               Write (local_path d) (to_csv_text lib False t)])"
proof -
  define m1 where "m1 = ''Exporting '' @ export_data.filename d @ '' to GCS''"
  define m2 where "m2 = ''Exporting '' @ export_data.filename d @ '' to '' @ local_export_folder d"
  define c where "c = to_csv_text lib False t"
  let ?evs = "[Print m1, Write (gcs_path d) c, Print m2, Write (local_path d) c]"
  note ch = export_data_gcs_char [OF assms(1), of lib d, folded m1_def m2_def c_def]
  consider (a) "\<not> writable w (gcs_path d)"
    | (b) "writable w (gcs_path d)" "\<not> writable w (local_path d)"
    | (c) "writable w (gcs_path d)" "writable w (local_path d)"
    by blast
  then have "heap w' = heap w \<and> (\<exists>k. trace w' = trace w @ take k ?evs)
     \<and> (\<forall>r. res = Inr r \<longrightarrow> r = p \<and> trace w' = trace w @ ?evs)"
  proof cases
    case a
    with ch assms(2) have r: "res = Inl (OSError (gcs_path d))"
      and w': "w' = w\<lparr>trace := trace w @ [Print m1]\<rparr>"
      by simp_all
    have "\<exists>k. trace w' = trace w @ take k ?evs"
      by (rule exI [of _ 1]) (simp add: w')
    with r w' show ?thesis by simp
  next
    case b
    with ch assms(2) have r: "res = Inl (OSError (local_path d))"
      and w': "w' = w\<lparr>files := (files w)(gcs_path d \<mapsto> c),
                      trace := trace w @ [Print m1, Write (gcs_path d) c, Print m2]\<rparr>"
      by simp_all
    have "\<exists>k. trace w' = trace w @ take k ?evs"
      by (rule exI [of _ 3]) (simp add: w')
    with r w' show ?thesis by simp
  next
    case c
    with ch assms(2) have r: "res = Inr p"
      and w': "w' = w\<lparr>files := (files w)(gcs_path d \<mapsto> c, local_path d \<mapsto> c),
                      trace := trace w @ ?evs\<rparr>"
      by simp_all
    have "\<exists>k. trace w' = trace w @ take k ?evs"
      by (rule exI [of _ 4]) (simp add: w')
    with r w' show ?thesis by simp
  qed
  then show ?thesis
    unfolding m1_def m2_def c_def .
qed

theorem export_data_gcs_pass_through_witness:
  "deref (heap ex_world) 0 = Inr ex_raw
   \<and> fst (export_data_gcs ex_lib ex_world 0 ex_export) = Inr 0
   \<and> heap (snd (export_data_gcs ex_lib ex_world 0 ex_export)) = heap ex_world
   \<and> trace (snd (export_data_gcs ex_lib ex_world 0 ex_export)) =
        [Print ''Exporting merged.csv to GCS'',
         Write ''gcs://bucket/out/merged.csv'' (to_csv_text ex_lib False ex_raw),
         Print ''Exporting merged.csv to data'',
         Write ''data/merged.csv'' (to_csv_text ex_lib False ex_raw)]"
proof -
  have d: "deref (heap ex_world) 0 = Inr ex_raw"
    by (simp add: ex_world_def deref_def)
  have r: "fst (export_data_gcs ex_lib ex_world 0 ex_export) = Inr 0"
    by (simp add: export_data_gcs_def to_csv_def print_def ex_world_def deref_def)
  have e: "export_data_gcs ex_lib ex_world 0 ex_export =
             (fst (export_data_gcs ex_lib ex_world 0 ex_export), snd (export_data_gcs ex_lib ex_world 0 ex_export))"
    by simp
  from export_data_gcs_pass_through [OF d e] r d show ?thesis
    by (simp add: ex_world_def ex_export_def gcs_path_def local_path_def)
qed

text \<open>
  C6. When \<^verbatim>\<open>export_data_gcs\<close> returns, the file in the bucket and the local file hold the
  same text, the one that \<^verbatim>\<open>to_csv\<close> gives for the frame with \<^verbatim>\<open>index=False\<close>, and
  these two writes are the only ones of the call.
\<close>

theorem export_data_gcs_same_content:
  assumes "deref (heap w) p = Inr t"
    and "export_data_gcs lib w p d = (Inr r, w')"
  shows "files w' (gcs_path d) = Some (to_csv_text lib False t)
     \<and> files w' (local_path d) = Some (to_csv_text lib False t)
     \<and> written (drop (length (trace w)) (trace w'))
           = [(gcs_path d, to_csv_text lib False t), (local_path d, to_csv_text lib False t)]"
proof -
  from assms(2) have "w' = w\<lparr>files := (files w)(gcs_path d \<mapsto> to_csv_text lib False t,
                                                  local_path d \<mapsto> to_csv_text lib False t),
           trace := trace w @ [Print (''Exporting '' @ export_data.filename d @ '' to GCS''),
                               Write (gcs_path d) (to_csv_text lib False t),
                               Print (''Exporting '' @ export_data.filename d @ '' to '' @ local_export_folder d),
                               Write (local_path d) (to_csv_text lib False t)]\<rparr>"
    unfolding export_data_gcs_char [OF assms(1)] by (simp split: if_splits)
  then show ?thesis by simp
qed

theorem export_data_gcs_same_content_witness:
  "deref (heap ex_world) 0 = Inr ex_raw
   \<and> fst (export_data_gcs ex_lib ex_world 0 ex_export) = Inr 0
   \<and> files (snd (export_data_gcs ex_lib ex_world 0 ex_export)) ''gcs://bucket/out/merged.csv''
        = Some ''item_id,qty\<newline>1,5\<newline>1,5\<newline>2,7\<newline>''
   \<and> files (snd (export_data_gcs ex_lib ex_world 0 ex_export)) ''data/merged.csv''
        = Some ''item_id,qty\<newline>1,5\<newline>1,5\<newline>2,7\<newline>''"
proof -
  have d: "deref (heap ex_world) 0 = Inr ex_raw"
    by (simp add: ex_world_def deref_def)
  have r: "fst (export_data_gcs ex_lib ex_world 0 ex_export) = Inr 0"
    by (simp add: export_data_gcs_def to_csv_def print_def ex_world_def deref_def)
  then have e: "export_data_gcs ex_lib ex_world 0 ex_export =
             (Inr 0, snd (export_data_gcs ex_lib ex_world 0 ex_export))"
    by (metis prod.collapse)
  have c: "to_csv_text ex_lib False ex_raw = ''item_id,qty\<newline>1,5\<newline>1,5\<newline>2,7\<newline>''"
    by code_simp
  from export_data_gcs_same_content [OF d e] r d show ?thesis
    by (simp add: c ex_export_def gcs_path_def local_path_def)
qed

text \<open>
  C8. When the write to the bucket succeeds and the local write fails, \<^verbatim>\<open>export_data_gcs\<close>
  ends with the error of the local write; the file in the bucket holds the CSV text, the
  local file is what it was before the call, and nothing else was done: the trace ends
  with the second message.
\<close>

theorem export_data_gcs_no_rollback:
  assumes "deref (heap w) p = Inr t"
    and "writable w (gcs_path d)"
    and "\<not> writable w (local_path d)"
  shows "export_data_gcs lib w p d =
           (Inl (OSError (local_path d)),
            w\<lparr>files := (files w)(gcs_path d \<mapsto> to_csv_text lib False t),
              trace := trace w @ [Print (''Exporting '' @ export_data.filename d @ '' to GCS''),
                                  Write (gcs_path d) (to_csv_text lib False t),
                                  Print (''Exporting '' @ export_data.filename d @ '' to '' @ local_export_folder d)]\<rparr>)
     \<and> files (snd (export_data_gcs lib w p d)) (gcs_path d) = Some (to_csv_text lib False t)
     \<and> files (snd (export_data_gcs lib w p d)) (local_path d) = files w (local_path d)"
proof -
  from assms(2,3) have "local_path d \<noteq> gcs_path d" by auto
  then show ?thesis
    unfolding export_data_gcs_char [OF assms(1)] using assms(2,3) by simp
qed

theorem export_data_gcs_no_rollback_witness:
  "deref (heap ex_world_ro) 0 = Inr ex_raw
   \<and> writable ex_world_ro (gcs_path ex_export) \<and> \<not> writable ex_world_ro (local_path ex_export)
   \<and> fst (export_data_gcs ex_lib ex_world_ro 0 ex_export) = Inl (OSError ''data/merged.csv'')
   \<and> files (snd (export_data_gcs ex_lib ex_world_ro 0 ex_export)) ''gcs://bucket/out/merged.csv''
        = Some (to_csv_text ex_lib False ex_raw)
   \<and> files (snd (export_data_gcs ex_lib ex_world_ro 0 ex_export)) ''data/merged.csv'' = None"
proof -
  have d: "deref (heap ex_world_ro) 0 = Inr ex_raw"
    by (simp add: ex_world_ro_def ex_world_def deref_def)
  have g: "writable ex_world_ro (gcs_path ex_export)"
    by (simp add: ex_world_ro_def gcs_path_def)
  have l: "\<not> writable ex_world_ro (local_path ex_export)"
    by (simp add: ex_world_ro_def local_path_def ex_export_def)
  have p: "gcs_path ex_export = ''gcs://bucket/out/merged.csv''" "local_path ex_export = ''data/merged.csv''"
    by (simp_all add: gcs_path_def local_path_def ex_export_def)
  have f: "files ex_world_ro ''data/merged.csv'' = None"
    by (simp add: ex_world_ro_def ex_world_def)
  from export_data_gcs_no_rollback [OF d g l, of ex_lib] d g l f show ?thesis
    by (simp add: p)
qed

end
